theory Spec2Isabelle
  imports Main "HOL-Library.Word"
begin

unbundle bit_operations_syntax

section \<open>JavaScript data\<close>

text \<open>
  A Node \<open>Buffer\<close> is a list of bytes.  A JavaScript number that the decoder uses as an
  offset, a length or a size is an integer or \<open>NaN\<close> (\<open>parseInt\<close> of a text without
  digits); \<open>Number\<close>, \<open>parseInt\<close>, \<open>+\<close> and \<open>*\<close> give the double nearest to the exact
  result, which is the exact result up to \<open>2^53\<close>.  BigInt values are \<open>int\<close>.  Type
  strings, hex strings, decimal strings and names are \<open>string\<close> (code units below 256);
  the text that \<open>decodeString\<close> returns may hold any UTF-16 code unit and is a
  \<open>ustring\<close>.  Both are strings for JavaScript: \<open>VStr\<close> and \<open>VText\<close>.  A decoded object
  is the list of its own properties, in the order of \<open>Object.keys\<close>.

  Outside the model: numbers beyond the range of a double (\<open>Infinity\<close>, which takes a
  type string with a number of some 300 digits), buffers of \<open>2^53\<close> bytes and more, the
  limits of the engine on the size of a BigInt, of an array and of memory, and the
  prototype of a decoded object.
\<close>

type_synonym byte = "8 word"
type_synonym buffer = "byte list"
type_synonym ustring = "int list"

datatype jsnum = NaN | Num int

datatype jsval =
    VNull
  | VBool bool
  | VStr string
  | VText ustring
  | VArr "jsval list"
  | VObj "(string \<times> jsval) list"

datatype error =
    ValueTooLarge int int
  | ValueOutOfRange int int
  | UnsupportedType string
  | InvalidTupleFormat string
  | InvalidTupleType
  | OutOfRange
  | SyntaxError
  | TypeError

text \<open>A thrown exception is \<open>Inl\<close>; \<open>andThen\<close> runs the rest of a function body on the
  value of a call that returned.\<close>

definition andThen :: "error + 'a \<Rightarrow> ('a \<Rightarrow> error + 'b) \<Rightarrow> error + 'b" where
  "andThen m f = (case m of Inl e \<Rightarrow> Inl e | Inr x \<Rightarrow> f x)"

lemma andThen_cong [fundef_cong]:
  "m = m' \<Longrightarrow> (\<And>x. m' = Inr x \<Longrightarrow> f x = g x) \<Longrightarrow> andThen m f = andThen m' g"
  by (cases m') (simp_all add: andThen_def)

lemma andThen_simps [simp]:
  "andThen (Inl e) f = Inl e"
  "andThen (Inr x) f = f x"
  by (simp_all add: andThen_def)

text \<open>The double nearest to an integer, ties to the even significand: an integer of
  at most 53 bits is a double; a longer one keeps its 53 leading bits, rounded.\<close>

function bit_length :: "int \<Rightarrow> nat" where
  "bit_length a = (if a \<le> 0 then 0 else Suc (bit_length (a div 2)))"
  by pat_completeness auto
termination
  by (relation "measure nat") auto

declare bit_length.simps [simp del]

definition round_double :: "int \<Rightarrow> int" where
  "round_double n =
     (if \<bar>n\<bar> \<le> 2 ^ 53 then n
      else let e = bit_length \<bar>n\<bar> - 53;
               q = \<bar>n\<bar> div 2 ^ e;
               r = \<bar>n\<bar> mod 2 ^ e;
               m = (if 2 ^ e < 2 * r \<or> (2 * r = 2 ^ e \<and> odd q) then q + 1 else q)
           in sgn n * (m * 2 ^ e))"

lemma round_double_exact [simp]: "\<bar>n\<bar> \<le> 2 ^ 53 \<Longrightarrow> round_double n = n"
  by (simp add: round_double_def)

fun num_add :: "jsnum \<Rightarrow> jsnum \<Rightarrow> jsnum" where
  "num_add (Num a) (Num b) = Num (round_double (a + b))"
| "num_add _ _ = NaN"

fun num_mul :: "jsnum \<Rightarrow> jsnum \<Rightarrow> jsnum" where
  "num_mul (Num a) (Num b) = Num (round_double (a * b))"
| "num_mul _ _ = NaN"

text \<open>\<open>Math.floor(x / 32) * 32\<close> and \<open>Math.ceil(x / 32) * 32\<close> on an integer or NaN: the
  division by 32 and the product by 32 of a double are exact.\<close>

fun floor32 :: "jsnum \<Rightarrow> jsnum" where
  "floor32 (Num a) = Num (a div 32 * 32)"
| "floor32 NaN = NaN"

fun ceil32 :: "jsnum \<Rightarrow> jsnum" where
  "ceil32 (Num a) = Num ((a + 31) div 32 * 32)"
| "ceil32 NaN = NaN"

subsection \<open>Buffer primitives of Node\<close>

text \<open>\<open>adjustOffset\<close> of \<open>Buffer.prototype.slice\<close>: NaN is 0, a negative index counts
  from the end (\<open>offset + length\<close>, exact for a length below \<open>2^53\<close>), everything is
  clamped to the buffer.  \<open>String.prototype.slice\<close> treats its indices the same way.\<close>

fun adjustOffset :: "jsnum \<Rightarrow> nat \<Rightarrow> nat" where
  "adjustOffset NaN len = 0"
| "adjustOffset (Num i) len =
     (if i < 0 then (if i + int len \<le> 0 then 0 else nat (i + int len))
      else if int len \<le> i then len else nat i)"

definition js_slice :: "'a list \<Rightarrow> jsnum \<Rightarrow> jsnum \<Rightarrow> 'a list" where
  "js_slice b s e =
     (let s' = adjustOffset s (length b); e' = adjustOffset e (length b)
      in take (e' - s') (drop s' b))"

text \<open>\<open>s.slice(i)\<close>, to the end.\<close>

definition slice_from :: "'a list \<Rightarrow> int \<Rightarrow> 'a list" where
  "slice_from b i = js_slice b (Num i) (Num (int (length b)))"

text \<open>\<open>readUInt8\<close> and \<open>readUInt32BE\<close> throw a RangeError unless the whole read lies
  inside the buffer (\<open>ERR_OUT_OF_RANGE\<close>, or \<open>ERR_BUFFER_OUT_OF_BOUNDS\<close> when the buffer is
  shorter than the read): \<open>OutOfRange\<close> here.\<close>

fun readUInt8 :: "buffer \<Rightarrow> jsnum \<Rightarrow> error + int" where
  "readUInt8 b NaN = Inl OutOfRange"
| "readUInt8 b (Num i) =
     (if 0 \<le> i \<and> i < int (length b) then Inr (uint (b ! nat i)) else Inl OutOfRange)"

fun readUInt32BE :: "buffer \<Rightarrow> jsnum \<Rightarrow> error + int" where
  "readUInt32BE b NaN = Inl OutOfRange"
| "readUInt32BE b (Num i) =
     (if 0 \<le> i \<and> i + 3 < int (length b)
      then Inr (uint (b ! nat i) * 2 ^ 24 + uint (b ! (nat i + 1)) * 2 ^ 16
                + uint (b ! (nat i + 2)) * 2 ^ 8 + uint (b ! (nat i + 3)))
      else Inl OutOfRange)"

definition hexdigit :: "int \<Rightarrow> char" where
  "hexdigit n = ''0123456789abcdef'' ! nat n"

definition toString_hex :: "buffer \<Rightarrow> string" where
  "toString_hex b = concat (map (\<lambda>x. [hexdigit (uint x div 16), hexdigit (uint x mod 16)]) b)"

definition hexval :: "char \<Rightarrow> int option" where
  "hexval c =
     (let n = (of_char c :: int) in
      if 48 \<le> n \<and> n \<le> 57 then Some (n - 48)
      else if 97 \<le> n \<and> n \<le> 102 then Some (n - 87)
      else if 65 \<le> n \<and> n \<le> 70 then Some (n - 55)
      else None)"

fun hex_value :: "int \<Rightarrow> string \<Rightarrow> int option" where
  "hex_value acc [] = Some acc"
| "hex_value acc (c # cs) =
     (case hexval c of None \<Rightarrow> None | Some d \<Rightarrow> hex_value (16 * acc + d) cs)"

text \<open>\<open>BigInt('0x' + hex)\<close>: a SyntaxError when there is no digit.\<close>

definition BigInt_hex :: "string \<Rightarrow> error + int" where
  "BigInt_hex hex =
     (if hex = [] then Inl SyntaxError
      else case hex_value 0 hex of None \<Rightarrow> Inl SyntaxError | Some n \<Rightarrow> Inr n)"

text \<open>\<open>a << k\<close> on BigInt: a right shift when \<open>k\<close> is negative.\<close>

definition bigint_shl :: "int \<Rightarrow> int \<Rightarrow> int" where
  "bigint_shl a k = (if 0 \<le> k then push_bit (nat k) a else drop_bit (nat (- k)) a)"

function decimal :: "int \<Rightarrow> string" where
  "decimal n = (if n < 10 then [hexdigit n] else decimal (n div 10) @ [hexdigit (n mod 10)])"
  by pat_completeness auto
termination
  by (relation "measure nat") auto

declare decimal.simps [simp del]

definition BigInt_toString :: "int \<Rightarrow> string" where
  "BigInt_toString v = (if v < 0 then CHR ''-'' # decimal (- v) else decimal v)"

fun decimal_value :: "int \<Rightarrow> string \<Rightarrow> int option" where
  "decimal_value acc [] = Some acc"
| "decimal_value acc (c # cs) =
     (let n = (of_char c :: int) in
      if 48 \<le> n \<and> n \<le> 57 then decimal_value (10 * acc + (n - 48)) cs else None)"

text \<open>\<open>Number(s)\<close> on the text of a decoded unsigned integer: the empty text is 0, a text
  of decimal digits is the double nearest to its value; any other text is NaN here (the
  decoder applies \<open>Number\<close> to the output of \<open>decodeUint\<close> only).\<close>

fun Number :: "jsval \<Rightarrow> jsnum" where
  "Number (VStr s) = (case decimal_value 0 s of None \<Rightarrow> NaN | Some n \<Rightarrow> Num (round_double n))"
| "Number _ = NaN"

subsection \<open>String primitives of JavaScript\<close>

definition startsWith :: "string \<Rightarrow> string \<Rightarrow> bool" where
  "startsWith s p = (take (length p) s = p)"

fun includes_str :: "string \<Rightarrow> string \<Rightarrow> bool" where
  "includes_str [] p = (p = [])"
| "includes_str (c # cs) p = (startsWith (c # cs) p \<or> includes_str cs p)"

text \<open>\<open>s.indexOf(c)\<close> for a single character: \<open>-1\<close> when absent.\<close>

fun indexOf :: "string \<Rightarrow> char \<Rightarrow> int" where
  "indexOf [] c = - 1"
| "indexOf (x # xs) c = (if x = c then 0 else (let i = indexOf xs c in if i < 0 then i else i + 1))"

text \<open>White space of \<open>trim\<close>, of \<open>\s\<close> and of \<open>parseInt\<close>, by code unit.\<close>

definition is_space :: "int \<Rightarrow> bool" where
  "is_space n = (n = 9 \<or> n = 10 \<or> n = 11 \<or> n = 12 \<or> n = 13 \<or> n = 32 \<or> n = 160
     \<or> n = 5760 \<or> (8192 \<le> n \<and> n \<le> 8202) \<or> n = 8232 \<or> n = 8233 \<or> n = 8239
     \<or> n = 8287 \<or> n = 12288 \<or> n = 65279)"

definition ws :: "char \<Rightarrow> bool" where
  "ws c = is_space (of_char c)"

definition trimWith :: "('a \<Rightarrow> bool) \<Rightarrow> 'a list \<Rightarrow> 'a list" where
  "trimWith sp s = rev (dropWhile sp (rev (dropWhile sp s)))"

definition trim :: "string \<Rightarrow> string" where
  "trim s = trimWith ws s"

text \<open>\<open>s.split(/\s+/)\<close>: the pieces between maximal runs of white space (an empty
  piece before a leading run and after a trailing one).  \<open>cur\<close> is the piece being read,
  reversed; \<open>run\<close> says that the last character was white space.\<close>

fun split_ws_from :: "string \<Rightarrow> string \<Rightarrow> bool \<Rightarrow> string list" where
  "split_ws_from [] cur run = [rev cur]"
| "split_ws_from (c # cs) cur run =
     (if ws c then (if run then split_ws_from cs [] True else rev cur # split_ws_from cs [] True)
      else split_ws_from cs (c # cur) False)"

definition split_ws :: "string \<Rightarrow> string list" where
  "split_ws s = split_ws_from s [] False"

definition is_digit :: "char \<Rightarrow> bool" where
  "is_digit c = (48 \<le> (of_char c :: int) \<and> (of_char c :: int) \<le> 57)"

definition is_hexdigit :: "char \<Rightarrow> bool" where
  "is_hexdigit c = (hexval c \<noteq> None)"

text \<open>\<open>parseInt(s)\<close> with no radix: leading white space and a sign are skipped, a
  \<open>0x\<close> prefix selects base 16, the longest run of digits is read and its value
  rounded to a double; NaN without a digit.\<close>

definition parseInt :: "string \<Rightarrow> jsnum" where
  "parseInt s =
     (let s1 = dropWhile ws s;
          neg = (s1 \<noteq> [] \<and> hd s1 = CHR ''-'');
          s2 = (if s1 \<noteq> [] \<and> (hd s1 = CHR ''-'' \<or> hd s1 = CHR ''+'') then tl s1 else s1);
          hex = (startsWith s2 ''0x'' \<or> startsWith s2 ''0X'');
          s3 = (if hex then drop 2 s2 else s2);
          z = takeWhile (if hex then is_hexdigit else is_digit) s3
      in if z = [] then NaN
         else case (if hex then hex_value 0 z else decimal_value 0 z) of
                None \<Rightarrow> NaN
              | Some n \<Rightarrow> Num (round_double (if neg then - n else n)))"

text \<open>\<open>parseInt(s) || 256\<close>: NaN and 0 are falsy.\<close>

definition or256 :: "jsnum \<Rightarrow> int" where
  "or256 n = (case n of NaN \<Rightarrow> 256 | Num k \<Rightarrow> if k = 0 then 256 else k)"

text \<open>\<open>Buffer.from(hex, 'hex')\<close>: pairs of hex digits up to the first pair that is not one;
  a last single digit is dropped.\<close>

fun Buffer_from_hex :: "string \<Rightarrow> buffer" where
  "Buffer_from_hex (a # b # rest) =
     (case (hexval a, hexval b) of
        (Some x, Some y) \<Rightarrow> word_of_int (16 * x + y) # Buffer_from_hex rest
      | _ \<Rightarrow> [])"
| "Buffer_from_hex _ = []"

section \<open>Helpers (src/lib/utils.js)\<close>

definition hexToBuffer :: "string \<Rightarrow> buffer" where
  "hexToBuffer hex = Buffer_from_hex (if startsWith hex ''0x'' then slice_from hex 2 else hex)"

section \<open>ABI descriptions\<close>

text \<open>A parameter descriptor of the contract interface: \<open>{name, type, indexed, components}\<close>;
  \<open>name\<close> and \<open>components\<close> may be absent.  The \<open>type\<close> argument of the decoder's
  functions is a type string or such an object.\<close>

datatype abi_param =
  Param (p_name: "string option") (p_type: string) (p_indexed: bool)
        (p_components: "abi_param list option")

datatype type_arg = TString string | TObject abi_param

text \<open>\<open>typeStr\<close> as \<open>decodeParameter\<close> and \<open>isDynamicType\<close> compute it: the object's
  \<open>type\<close> when that is truthy, else the argument itself, which is a string or (None
  here) the object, on which the string methods then raise a TypeError.\<close>

fun typeStr_of :: "type_arg \<Rightarrow> string option" where
  "typeStr_of (TString s) = Some s"
| "typeStr_of (TObject p) = (if p_type p \<noteq> [] then Some (p_type p) else None)"

section \<open>The decoder (src/lib/decoder.js)\<close>

subsection \<open>Tuple type strings\<close>

text \<open>The match of \<open>/^tuple\((.+)\)$/\<close>: its group, when the text matches
  (\<open>.\<close> matches no line terminator).\<close>

definition tuple_match :: "string \<Rightarrow> string option" where
  "tuple_match s =
     (let m = take (length s - 7) (drop 6 s) in
      if startsWith s ''tuple('' \<and> 8 \<le> length s \<and> last s = CHR '')''
         \<and> list_all (\<lambda>c. c \<noteq> CHR 0x0A \<and> c \<noteq> CHR 0x0D) m
      then Some m else None)"

text \<open>The component pushed by \<open>parseTupleComponents\<close> for the trimmed text of a field:
  \<open>{type: parts[0], name: parts[1] || `field${components.length}`}\<close>.\<close>

definition component_of :: "string \<Rightarrow> nat \<Rightarrow> abi_param" where
  "component_of trimmed n =
     (let parts = split_ws trimmed;
          nm = (case parts of _ # x # _ \<Rightarrow> (if x \<noteq> [] then x else ''field'' @ decimal (int n))
                | _ \<Rightarrow> ''field'' @ decimal (int n))
      in Param (Some nm) (hd parts) False None)"

fun parseTupleComponents_loop ::
  "string \<Rightarrow> int \<Rightarrow> string \<Rightarrow> bool \<Rightarrow> abi_param list \<Rightarrow> abi_param list" where
  "parseTupleComponents_loop [] depth current inType components =
     (if trim current \<noteq> [] then components @ [component_of (trim current) (length components)]
      else components)"
| "parseTupleComponents_loop (c # cs) depth current inType components =
     (if c = CHR ''('' \<or> c = CHR ''[''
      then parseTupleComponents_loop cs (depth + 1) (current @ [c]) inType components
      else if c = CHR '')'' \<or> c = CHR '']''
      then parseTupleComponents_loop cs (depth - 1) (current @ [c]) inType components
      else if c = CHR '','' \<and> depth = 0
      then (let trimmed = trim current in
            parseTupleComponents_loop cs depth [] inType
              (if trimmed \<noteq> [] then components @ [component_of trimmed (length components)]
               else components))
      else if c = CHR '' '' \<and> depth = 0 \<and> trim current \<noteq> [] \<and> inType
      then parseTupleComponents_loop cs depth current False components
      else parseTupleComponents_loop cs depth (current @ [c]) inType components)"

definition parseTupleComponents :: "string \<Rightarrow> abi_param list" where
  "parseTupleComponents componentStr = parseTupleComponents_loop componentStr 0 [] True []"

subsection \<open>The dynamism predicate\<close>

text \<open>Sizes of type arguments, for the termination of the recursion over tuple
  components (given as objects, or parsed from the type string).\<close>

fun psize :: "abi_param \<Rightarrow> nat" where
  "psize (Param n t i cs) =
     Suc (2 * length t
          + (case cs of None \<Rightarrow> 0 | Some l \<Rightarrow> sum_list (map (\<lambda>c. Suc (psize c)) l)))"

fun tsize :: "type_arg \<Rightarrow> nat" where
  "tsize (TString s) = 2 * length s"
| "tsize (TObject p) = psize p"

definition lsize :: "type_arg list \<Rightarrow> nat" where
  "lsize ts = sum_list (map (\<lambda>t. Suc (tsize t)) ts)"

fun object_components :: "type_arg \<Rightarrow> abi_param list option" where
  "object_components (TString s) = None"
| "object_components (TObject p) = p_components p"

lemma length_trim_le: "length (trim s) \<le> length s"
proof -
  have "length (trim s) \<le> length (dropWhile ws s)"
    unfolding trim_def trimWith_def by (simp add: length_dropWhile_le order_trans [OF length_dropWhile_le])
  also have "\<dots> \<le> length s" by (rule length_dropWhile_le)
  finally show ?thesis .
qed

lemma split_ws_from_hd: "length (hd (split_ws_from s cur run)) \<le> length cur + length s"
proof (induction s arbitrary: cur run)
  case Nil
  show ?case by simp
next
  case (Cons c cs)
  show ?case
    using Cons.IH [of "[]" True] Cons.IH [of "c # cur" False] by simp
qed

lemma length_hd_split_ws: "length (hd (split_ws s)) \<le> length s"
  using split_ws_from_hd [of s "[]" False] by (simp add: split_ws_def)

lemma p_type_component_of: "length (p_type (component_of t n)) \<le> length t"
  by (simp add: component_of_def Let_def length_hd_split_ws)

definition csize :: "abi_param list \<Rightarrow> nat" where
  "csize cs = sum_list (map (\<lambda>c. Suc (length (p_type c))) cs)"

lemma csize_loop:
  "csize (parseTupleComponents_loop s depth current inType components)
   \<le> csize components + length current + length s + 1"
proof (induction s arbitrary: depth current inType components)
  case Nil
  have "length (p_type (component_of (trim current) (length components))) \<le> length current"
    using p_type_component_of [of "trim current"] length_trim_le [of current] by (rule order_trans)
  then show ?case by (simp add: csize_def)
next
  case (Cons c cs)
  have t: "length (p_type (component_of (trim current) (length components))) \<le> length current"
    using p_type_component_of [of "trim current"] length_trim_le [of current] by (rule order_trans)
  let ?R = "csize components + length current + length (c # cs) + 1"
  consider (c_open) "c = CHR ''('' \<or> c = CHR ''[''"
    | (c_close) "\<not> (c = CHR ''('' \<or> c = CHR ''['')" "c = CHR '')'' \<or> c = CHR '']''"
    | (c_comma) "\<not> (c = CHR ''('' \<or> c = CHR ''['')" "\<not> (c = CHR '')'' \<or> c = CHR '']'')"
        "c = CHR '','' \<and> depth = 0"
    | (c_space) "\<not> (c = CHR ''('' \<or> c = CHR ''['')" "\<not> (c = CHR '')'' \<or> c = CHR '']'')"
        "\<not> (c = CHR '','' \<and> depth = 0)"
        "c = CHR '' '' \<and> depth = 0 \<and> trim current \<noteq> [] \<and> inType"
    | (c_other) "\<not> (c = CHR ''('' \<or> c = CHR ''['')" "\<not> (c = CHR '')'' \<or> c = CHR '']'')"
        "\<not> (c = CHR '','' \<and> depth = 0)"
        "\<not> (c = CHR '' '' \<and> depth = 0 \<and> trim current \<noteq> [] \<and> inType)"
    by blast
  then show ?case
  proof cases
    case c_open
    then show ?thesis
      using Cons.IH [of "depth + 1" "current @ [c]" inType components] by simp
  next
    case c_close
    then show ?thesis
      using Cons.IH [of "depth - 1" "current @ [c]" inType components] by simp
  next
    case c_comma
    show ?thesis
    proof (cases "trim current = []")
      case True
      then show ?thesis
        using c_comma Cons.IH [of depth "[]" inType components] by simp
    next
      case False
      then show ?thesis
        using c_comma t
          Cons.IH [of depth "[]" inType "components @ [component_of (trim current) (length components)]"]
        by (simp add: csize_def)
    qed
  next
    case c_space
    then show ?thesis
      using Cons.IH [of depth current False components] by simp
  next
    case c_other
    have "parseTupleComponents_loop (c # cs) depth current inType components
          = parseTupleComponents_loop cs depth (current @ [c]) inType components"
      by (simp only: parseTupleComponents_loop.simps c_other if_False)
    then show ?thesis
      using Cons.IH [of depth "current @ [c]" inType components] by simp
  qed
qed

lemma csize_parseTupleComponents: "csize (parseTupleComponents s) \<le> length s + 1"
  using csize_loop [of s 0 "[]" True "[]"] by (simp add: parseTupleComponents_def csize_def)

lemma tuple_match_length: "tuple_match s = Some m \<Longrightarrow> length m + 7 \<le> length s"
  by (auto simp: tuple_match_def Let_def split: if_splits)

lemma tuple_match_csize:
  "tuple_match s = Some m \<Longrightarrow> csize (parseTupleComponents m) + 6 \<le> length s"
  using csize_parseTupleComponents [of m] tuple_match_length [of s m] by simp

lemma lsize_strings: "lsize (map (\<lambda>c. TString (p_type c)) cs) \<le> 2 * csize cs"
  by (induction cs) (simp_all add: lsize_def csize_def)

lemma lsize_objects: "lsize (map TObject cs) = sum_list (map (\<lambda>c. Suc (psize c)) cs)"
  by (simp add: lsize_def comp_def)

lemma typeStr_of_size: "typeStr_of t = Some s \<Longrightarrow> 2 * length s \<le> tsize t"
  by (cases t; cases "case t of TObject p \<Rightarrow> p") (auto split: if_splits)

lemma object_components_size:
  "object_components t = Some cs \<Longrightarrow> sum_list (map (\<lambda>c. Suc (psize c)) cs) < tsize t"
  by (cases t; cases "case t of TObject p \<Rightarrow> p") auto

function isDynamicType :: "type_arg \<Rightarrow> error + bool"
  and some_isDynamicType :: "type_arg list \<Rightarrow> error + bool" where
  "isDynamicType type =
     (case typeStr_of type of
        None \<Rightarrow> Inl TypeError
      | Some typeStr \<Rightarrow>
          if typeStr = ''string'' \<or> typeStr = ''bytes'' then Inr True
          else if includes_str typeStr ''[]'' then Inr True
          else if startsWith typeStr ''tuple'' then
            (case object_components type of
               Some components \<Rightarrow> some_isDynamicType (map TObject components)
             | None \<Rightarrow>
                 (case tuple_match typeStr of
                    Some m \<Rightarrow>
                      some_isDynamicType (map (\<lambda>comp. TString (p_type comp)) (parseTupleComponents m))
                  | None \<Rightarrow> Inr False))
          else Inr False)"
| "some_isDynamicType [] = Inr False"
| "some_isDynamicType (t # ts) =
     (case isDynamicType t of
        Inl e \<Rightarrow> Inl e
      | Inr d \<Rightarrow> if d then Inr True else some_isDynamicType ts)"
  by pat_completeness auto
termination
proof (relation "measure (\<lambda>x. case x of Inl t \<Rightarrow> 2 + 2 * tsize t | Inr ts \<Rightarrow> 2 * lsize ts + 1)",
    goal_cases)
  case 1
  show ?case by simp
next
  case (2 type typeStr m)
  then show ?case
    using tuple_match_csize [of typeStr m] typeStr_of_size [of type typeStr]
      lsize_strings [of "parseTupleComponents m"]
    by simp
next
  case (3 type typeStr components)
  then show ?case
    using object_components_size [of type components] by (simp add: lsize_objects)
next
  case (4 t ts)
  show ?case by (simp add: lsize_def)
next
  case (5 t ts)
  show ?case by (simp add: lsize_def)
qed

declare isDynamicType.simps [simp del]

text \<open>The older copy of the decoder that src/lib/utils.js carries after its exports has
  this predicate, on type strings only.\<close>

definition isDynamicType_older :: "string \<Rightarrow> bool" where
  "isDynamicType_older type =
     (if type = ''string'' \<or> type = ''bytes'' then True
      else if includes_str type ''[]'' then True
      else if startsWith type ''tuple'' then True
      else False)"

subsection \<open>Integers\<close>

text \<open>A decoder returns \<open>{value, nextOffset}\<close>.  \<open>bits\<close> is 256 where the source omits
  the argument.\<close>

type_synonym decoded = "jsval \<times> jsnum"

definition decodeUint :: "buffer \<Rightarrow> jsnum \<Rightarrow> int \<Rightarrow> error + decoded" where
  "decodeUint buffer offset bits =
     (let wordSlice = js_slice buffer offset (num_add offset (Num 32)) in
      andThen
        (if bits \<le> 64 then
           andThen (readUInt32BE buffer (num_add offset (Num 24))) (\<lambda>high.
           andThen (readUInt32BE buffer (num_add offset (Num 28))) (\<lambda>low.
           Inr (bigint_shl high 32 OR low)))
         else
           (let hex = toString_hex wordSlice in
            if hex \<noteq> [] then BigInt_hex hex else Inr 0))
        (\<lambda>v.
           let maxValue = bigint_shl 1 bits - 1 in
           if v > maxValue then Inl (ValueTooLarge bits v)
           else Inr (VStr (BigInt_toString v), num_add offset (Num 32))))"

definition decodeInt :: "buffer \<Rightarrow> jsnum \<Rightarrow> int \<Rightarrow> error + decoded" where
  "decodeInt buffer offset bits =
     (let wordSlice = js_slice buffer offset (num_add offset (Num 32));
          hex = toString_hex wordSlice in
      andThen (BigInt_hex hex) (\<lambda>v0.
        let signBit = bigint_shl 1 (bits - 1);
            v = (if v0 \<ge> signBit then v0 - bigint_shl 1 bits else v0);
            minValue = - bigint_shl 1 (bits - 1);
            maxValue = bigint_shl 1 (bits - 1) - 1 in
        if v < minValue \<or> v > maxValue then Inl (ValueOutOfRange bits v)
        else Inr (VStr (BigInt_toString v), num_add offset (Num 32))))"

subsection \<open>Single words, bytes and strings\<close>

definition decodeBool :: "buffer \<Rightarrow> jsnum \<Rightarrow> error + decoded" where
  "decodeBool buffer offset =
     andThen (readUInt8 buffer (num_add offset (Num 31))) (\<lambda>b.
       Inr (VBool (b \<noteq> 0), num_add offset (Num 32)))"

definition decodeAddress :: "buffer \<Rightarrow> jsnum \<Rightarrow> error + decoded" where
  "decodeAddress buffer offset =
     (let addressBytes = js_slice buffer (num_add offset (Num 12)) (num_add offset (Num 32))
      in Inr (VStr (''0x'' @ toString_hex addressBytes), num_add offset (Num 32)))"

definition decodeFixedBytes :: "buffer \<Rightarrow> jsnum \<Rightarrow> jsnum \<Rightarrow> error + decoded" where
  "decodeFixedBytes buffer offset sz =
     Inr (VStr (''0x'' @ toString_hex (js_slice buffer offset (num_add offset sz))),
          num_add offset (Num 32))"

definition decodeBytesAt :: "buffer \<Rightarrow> jsnum \<Rightarrow> error + decoded" where
  "decodeBytesAt buffer offset =
     andThen (decodeUint buffer offset 256) (\<lambda>(lengthValue, _).
       let len = Number lengthValue;
           dataOffset = num_add offset (Num 32);
           v = ''0x'' @ toString_hex (js_slice buffer dataOffset (num_add dataOffset len));
           paddedLength = ceil32 len;
           nextOffset = num_add dataOffset paddedLength
       in Inr (VStr v, nextOffset))"

definition decodeBytes :: "buffer \<Rightarrow> jsnum \<Rightarrow> error + decoded" where
  "decodeBytes buffer offset = decodeBytesAt buffer offset"

text \<open>\<open>buf.toString('utf8')\<close>: the UTF-8 decoder with replacement (the code point being
  read, the number of continuation bytes still needed, and the bounds of the next one);
  an ill-formed sequence gives U+FFFD and the byte that ended it is read again.\<close>

function utf8_decode :: "int \<Rightarrow> nat \<Rightarrow> int \<Rightarrow> int \<Rightarrow> int list \<Rightarrow> int list" where
  "utf8_decode cp needed lower upper [] = (if needed \<noteq> 0 then [0xFFFD] else [])"
| "utf8_decode cp needed lower upper (b # bs) =
     (if needed = 0 then
        (if b \<le> 0x7F then b # utf8_decode 0 0 0x80 0xBF bs
         else if 0xC2 \<le> b \<and> b \<le> 0xDF then utf8_decode (b mod 32) 1 0x80 0xBF bs
         else if 0xE0 \<le> b \<and> b \<le> 0xEF then
           utf8_decode (b mod 16) 2 (if b = 0xE0 then 0xA0 else 0x80)
             (if b = 0xED then 0x9F else 0xBF) bs
         else if 0xF0 \<le> b \<and> b \<le> 0xF4 then
           utf8_decode (b mod 8) 3 (if b = 0xF0 then 0x90 else 0x80)
             (if b = 0xF4 then 0x8F else 0xBF) bs
         else 0xFFFD # utf8_decode 0 0 0x80 0xBF bs)
      else if b < lower \<or> upper < b then 0xFFFD # utf8_decode 0 0 0x80 0xBF (b # bs)
      else (let cp' = cp * 64 + b mod 64 in
            if needed = 1 then cp' # utf8_decode 0 0 0x80 0xBF bs
            else utf8_decode cp' (needed - 1) 0x80 0xBF bs))"
  by pat_completeness auto
termination
  by (relation "measures [\<lambda>(cp, needed, lower, upper, bs). length bs,
                          \<lambda>(cp, needed, lower, upper, bs). needed]") auto

text \<open>A code point as UTF-16 code units.\<close>

definition utf16 :: "int \<Rightarrow> int list" where
  "utf16 cp =
     (if cp < 0x10000 then [cp]
      else [0xD800 + (cp - 0x10000) div 1024, 0xDC00 + (cp - 0x10000) mod 1024])"

definition toString_utf8 :: "buffer \<Rightarrow> ustring" where
  "toString_utf8 b = concat (map utf16 (utf8_decode 0 0 0x80 0xBF (map uint b)))"

definition decodeString :: "buffer \<Rightarrow> jsnum \<Rightarrow> error + decoded" where
  "decodeString buffer offset =
     andThen (decodeBytes buffer offset) (\<lambda>(bytesValue, nextOffset).
       case bytesValue of
         VStr v \<Rightarrow>
           (let hex = slice_from v 2;
                text = toString_utf8 (Buffer_from_hex hex);
                cleaned = trimWith is_space (filter (\<lambda>c. c \<noteq> 0) text)
            in Inr (VText cleaned, nextOffset))
       | _ \<Rightarrow> Inl TypeError)"

subsection \<open>Parameters, arrays and tuples\<close>

text \<open>An array index among property names: the canonical decimal text of an integer from
  0 to \<open>2^32 - 2\<close>.\<close>

definition array_index :: "string \<Rightarrow> int option" where
  "array_index k =
     (if k \<noteq> [] \<and> list_all is_digit k \<and> (length k = 1 \<or> hd k \<noteq> CHR ''0'')
      then (case decimal_value 0 k of
              Some n \<Rightarrow> if n < 2 ^ 32 - 1 then Some n else None
            | None \<Rightarrow> None)
      else None)"

text \<open>A new property whose name is the array index \<open>n\<close> goes after the array indices
  below \<open>n\<close>, before all other properties.\<close>

fun insert_index :: "int \<Rightarrow> string \<Rightarrow> jsval \<Rightarrow> (string \<times> jsval) list \<Rightarrow> (string \<times> jsval) list" where
  "insert_index n k v [] = [(k, v)]"
| "insert_index n k v ((k', v') # rest) =
     (case array_index k' of
        Some n' \<Rightarrow> if n' < n then (k', v') # insert_index n k v rest else (k, v) # (k', v') # rest
      | None \<Rightarrow> (k, v) # (k', v') # rest)"

text \<open>\<open>result[fieldName] = value\<close> on an object created by \<open>{}\<close>, kept as the list of its
  own properties in the order of \<open>Object.keys\<close>: array indices first, in ascending order,
  then the other names in the order of their creation.  An existing property keeps its
  place.  The name \<open>__proto__\<close> is the inherited accessor: the assignment creates no
  property (a decoded value is never \<open>null\<close>).\<close>

definition obj_set :: "string \<Rightarrow> jsval \<Rightarrow> (string \<times> jsval) list \<Rightarrow> (string \<times> jsval) list" where
  "obj_set k v ps =
     (if k = ''__proto__'' then ps
      else if k \<in> set (map fst ps) then map (\<lambda>(k', v'). if k' = k then (k', v) else (k', v')) ps
      else case array_index k of
             Some n \<Rightarrow> insert_index n k v ps
           | None \<Rightarrow> ps @ [(k, v)])"

text \<open>The components \<open>decodeTuple\<close> works on: those of the ABI object, or those parsed
  from a \<open>tuple(...)\<close> string.\<close>

fun tuple_components :: "type_arg \<Rightarrow> error + abi_param list" where
  "tuple_components (TObject p) =
     (case p_components p of Some cs \<Rightarrow> Inr cs | None \<Rightarrow> Inl InvalidTupleType)"
| "tuple_components (TString s) =
     (case tuple_match s of
        None \<Rightarrow> Inl (InvalidTupleFormat s)
      | Some m \<Rightarrow> Inr (parseTupleComponents m))"

text \<open>\<open>component.name || `field${i}`\<close>.\<close>

definition fieldName_of :: "abi_param \<Rightarrow> int \<Rightarrow> string" where
  "fieldName_of component i =
     (case p_name component of
        Some n \<Rightarrow> if n \<noteq> [] then n else ''field'' @ decimal i
      | None \<Rightarrow> ''field'' @ decimal i)"

text \<open>The number of rounds of \<open>for (let i = 0; i < arrayLength; i++)\<close> is bounded by
  \<open>arrayLength\<close>; there is none when it is NaN.\<close>

fun loop_bound :: "jsnum \<Rightarrow> int" where
  "loop_bound NaN = 0"
| "loop_bound (Num n) = n"

type_synonym dynamicInfo = "int \<times> jsnum \<times> string \<times> abi_param"

text \<open>The measure of the recursion: a type, an array's base type and a tuple's components
  get smaller; the rounds of a loop are counted.\<close>

definition recursive_type :: "type_arg \<Rightarrow> bool" where
  "recursive_type t =
     (case typeStr_of t of
        None \<Rightarrow> False
      | Some s \<Rightarrow> includes_str s ''['' \<or> startsWith s ''tuple'')"

definition components_size :: "abi_param list \<Rightarrow> nat" where
  "components_size cs = sum_list (map (\<lambda>c. Suc (psize c)) cs)"

definition pending_size :: "dynamicInfo list \<Rightarrow> nat" where
  "pending_size ds = sum_list (map (\<lambda>d. Suc (psize (snd (snd (snd d))))) ds)"

fun decode_size where
  "decode_size (Inl (Inl (type, buffer, offset))) =
     (if recursive_type type then 4 * tsize type + 3 else 0)"
| "decode_size (Inl (Inr (Inl (type, buffer, offset)))) = 8 * length type + 2"
| "decode_size (Inl (Inr (Inr (baseType, type, buffer, offset, staticOffset, i, arrayLength, results)))) =
     (if recursive_type (TString baseType) then 8 * length baseType + 4 else 1)"
| "decode_size (Inr (Inl (Inl (baseType, buffer, currentOffset, i, arrayLength, results)))) =
     (if recursive_type (TString baseType) then 8 * length baseType + 4 else 1)"
| "decode_size (Inr (Inl (Inr (type, buffer, offset)))) = 4 * tsize type + 2"
| "decode_size (Inr (Inr (Inl (components, i, buffer, offset, currentOffset, result, dynamicOffsets)))) =
     4 * (components_size components + pending_size dynamicOffsets) + 1"
| "decode_size (Inr (Inr (Inr (dynamicOffsets, buffer, result, currentOffset)))) =
     4 * pending_size dynamicOffsets + 1"

fun decode_round where
  "decode_round (Inl (Inl (type, buffer, offset))) = (0::nat)"
| "decode_round (Inl (Inr (Inl (type, buffer, offset)))) = 0"
| "decode_round (Inl (Inr (Inr (baseType, type, buffer, offset, staticOffset, i, arrayLength, results)))) =
     nat (arrayLength - i)"
| "decode_round (Inr (Inl (Inl (baseType, buffer, currentOffset, i, arrayLength, results)))) =
     nat (arrayLength - i)"
| "decode_round (Inr (Inl (Inr (type, buffer, offset)))) = 0"
| "decode_round (Inr (Inr (Inl (components, i, buffer, offset, currentOffset, result, dynamicOffsets)))) =
     2 * length components + length dynamicOffsets + 1"
| "decode_round (Inr (Inr (Inr (dynamicOffsets, buffer, result, currentOffset)))) =
     length dynamicOffsets"

lemma recursive_type_nonempty: "recursive_type (TString s) \<Longrightarrow> s \<noteq> []"
  by (auto simp: recursive_type_def startsWith_def)

lemma indexOf_bounds: "- 1 \<le> indexOf s c \<and> indexOf s c < int (length s)"
  by (induction s) (auto simp: Let_def)

lemma length_slice_index:
  assumes "s \<noteq> []"
  shows "length (js_slice s (Num 0) (Num (indexOf s c))) < length s"
proof -
  have b: "- 1 \<le> indexOf s c" "indexOf s c < int (length s)"
    using indexOf_bounds [of s c] by simp_all
  have "0 < int (length s)"
    using assms by simp
  then have "adjustOffset (Num (indexOf s c)) (length s) < length s"
    using b by (cases "indexOf s c < 0") auto
  moreover have "adjustOffset (Num 0) (length s) = 0"
    by simp
  ultimately show ?thesis
    by (simp add: js_slice_def del: adjustOffset.simps)
qed

lemma baseType_shorter:
  assumes "baseType = js_slice type (Num 0) (Num (indexOf type CHR ''[''))"
    and "recursive_type (TString baseType)"
  shows "length baseType < length type"
proof -
  have "baseType \<noteq> []"
    using assms(2) by (rule recursive_type_nonempty)
  then have "type \<noteq> []"
    using assms(1) by (auto simp: js_slice_def)
  then show ?thesis
    using length_slice_index [of type "CHR ''[''"] assms(1) by simp
qed

lemma components_None_loop:
  "\<forall>c \<in> set components. p_components c = None \<Longrightarrow>
   \<forall>c \<in> set (parseTupleComponents_loop s depth current inType components). p_components c = None"
proof (induction s arbitrary: depth current inType components)
  case Nil
  then show ?case by (simp add: component_of_def Let_def)
next
  case (Cons c cs)
  have ext: "\<forall>c \<in> set (components @ [component_of t n]). p_components c = None" for t n
    using Cons.prems by (simp add: component_of_def Let_def)
  show ?case
    using Cons.IH [OF Cons.prems] Cons.IH [OF ext]
    by (simp add: Let_def del: set_append)
qed

lemma components_size_parsed:
  "\<forall>c \<in> set cs. p_components c = None \<Longrightarrow> components_size cs = 2 * csize cs"
proof (induction cs)
  case Nil
  show ?case by (simp add: components_size_def csize_def)
next
  case (Cons a cs)
  have "psize a = Suc (2 * length (p_type a))"
    using Cons.prems by (cases a) simp
  then show ?case
    using Cons by (simp add: components_size_def csize_def)
qed

lemma tuple_components_size:
  assumes "tuple_components t = Inr cs"
  shows "components_size cs \<le> tsize t"
proof (cases t)
  case (TObject p)
  then show ?thesis
    using assms by (cases p) (auto simp: components_size_def split: option.splits)
next
  case (TString s)
  then obtain m where m: "tuple_match s = Some m" "cs = parseTupleComponents m"
    using assms by (auto split: option.splits)
  have "\<forall>c \<in> set cs. p_components c = None"
    unfolding m(2) parseTupleComponents_def by (rule components_None_loop) simp
  then have "components_size cs = 2 * csize cs"
    by (rule components_size_parsed)
  then show ?thesis
    using tuple_match_csize [OF m(1)] m(2) TString by simp
qed

function decodeParameter :: "type_arg \<Rightarrow> buffer \<Rightarrow> jsnum \<Rightarrow> error + decoded"
  and decodeArray :: "string \<Rightarrow> buffer \<Rightarrow> jsnum \<Rightarrow> error + decoded"
  and decodeArray_dynamic ::
    "string \<Rightarrow> string \<Rightarrow> buffer \<Rightarrow> jsnum \<Rightarrow> jsnum \<Rightarrow> int \<Rightarrow> int \<Rightarrow> jsval list \<Rightarrow> error + jsval list"
  and decodeArray_static ::
    "string \<Rightarrow> buffer \<Rightarrow> jsnum \<Rightarrow> int \<Rightarrow> int \<Rightarrow> jsval list \<Rightarrow> error + decoded"
  and decodeTuple :: "type_arg \<Rightarrow> buffer \<Rightarrow> jsnum \<Rightarrow> error + decoded"
  and decodeTuple_static ::
    "abi_param list \<Rightarrow> int \<Rightarrow> buffer \<Rightarrow> jsnum \<Rightarrow> jsnum \<Rightarrow> (string \<times> jsval) list
      \<Rightarrow> dynamicInfo list \<Rightarrow> error + decoded"
  and decodeTuple_dynamic ::
    "dynamicInfo list \<Rightarrow> buffer \<Rightarrow> (string \<times> jsval) list \<Rightarrow> jsnum \<Rightarrow> error + decoded"
where
  "decodeParameter type buffer offset =
     (case typeStr_of type of
        None \<Rightarrow> Inl TypeError
      | Some typeStr \<Rightarrow>
          if includes_str typeStr ''['' then decodeArray typeStr buffer offset
          else if startsWith typeStr ''tuple'' then decodeTuple type buffer offset
          else if typeStr = ''bool'' then decodeBool buffer offset
          else if typeStr = ''address'' then decodeAddress buffer offset
          else if typeStr = ''bytes'' then decodeBytes buffer offset
          else if typeStr = ''string'' then decodeString buffer offset
          else if startsWith typeStr ''uint''
          then decodeUint buffer offset (or256 (parseInt (slice_from typeStr 4)))
          else if startsWith typeStr ''int''
          then decodeInt buffer offset (or256 (parseInt (slice_from typeStr 3)))
          else if startsWith typeStr ''bytes'' \<and> length typeStr > 5
          then decodeFixedBytes buffer offset (parseInt (slice_from typeStr 5))
          else Inl (UnsupportedType typeStr))"
| "decodeArray type buffer offset =
     (let bracketIndex = indexOf type CHR ''['';
          baseType = js_slice type (Num 0) (Num bracketIndex);
          arraySpec = slice_from type bracketIndex;
          isFixedSize = (arraySpec \<noteq> ''[]'');
          fixedSize = parseInt (js_slice arraySpec (Num 1) (Num (- 1)))
      in
      andThen (isDynamicType (TString type)) (\<lambda>typeDynamic.
      andThen (if typeDynamic
               then andThen (decodeUint buffer offset 256) (\<lambda>(dataOffset, _). Inr (Number dataOffset))
               else Inr offset) (\<lambda>startOffset.
      andThen (if isFixedSize then Inr (fixedSize, startOffset)
               else andThen (decodeUint buffer startOffset 256) (\<lambda>(lengthValue, nextOffset).
                      Inr (Number lengthValue, nextOffset))) (\<lambda>(arrayLength, currentOffset).
      andThen (isDynamicType (TString baseType)) (\<lambda>baseDynamic.
        if baseDynamic then
          andThen (decodeArray_dynamic baseType type buffer offset currentOffset 0
                     (loop_bound arrayLength) []) (\<lambda>results.
            Inr (VArr results, num_add currentOffset (num_mul arrayLength (Num 32))))
        else decodeArray_static baseType buffer currentOffset 0 (loop_bound arrayLength) [])))))"
| "decodeArray_dynamic baseType type buffer offset staticOffset i arrayLength results =
     (if i < arrayLength then
        andThen (decodeUint buffer (num_add staticOffset (num_mul (Num i) (Num 32))) 256) (\<lambda>(elementValue, _).
        andThen (isDynamicType (TString type)) (\<lambda>typeDynamic.
          let elementOffset = Number elementValue;
              absoluteOffset = num_add (if typeDynamic then floor32 offset else Num 0) elementOffset
          in andThen (decodeParameter (TString baseType) buffer absoluteOffset) (\<lambda>(v, _).
               decodeArray_dynamic baseType type buffer offset staticOffset (i + 1) arrayLength
                 (results @ [v]))))
      else Inr results)"
| "decodeArray_static baseType buffer currentOffset i arrayLength results =
     (if i < arrayLength then
        andThen (decodeParameter (TString baseType) buffer currentOffset) (\<lambda>(v, nextOffset).
          decodeArray_static baseType buffer nextOffset (i + 1) arrayLength (results @ [v]))
      else Inr (VArr results, currentOffset))"
| "decodeTuple type buffer offset =
     andThen (tuple_components type) (\<lambda>components.
       decodeTuple_static components 0 buffer offset offset [] [])"
| "decodeTuple_static [] i buffer offset currentOffset result dynamicOffsets =
     decodeTuple_dynamic dynamicOffsets buffer result currentOffset"
| "decodeTuple_static (component # rest) i buffer offset currentOffset result dynamicOffsets =
     (let fieldName = fieldName_of component i in
      andThen (isDynamicType (TObject component)) (\<lambda>componentDynamic.
        if componentDynamic then
          andThen (decodeUint buffer currentOffset 256) (\<lambda>(offsetValue, _).
            let relativeOffset = Number offsetValue;
                absoluteOffset = num_add offset relativeOffset
            in decodeTuple_static rest (i + 1) buffer offset (num_add currentOffset (Num 32)) result
                 (dynamicOffsets @ [(i, absoluteOffset, fieldName, component)]))
        else
          andThen (decodeParameter (TObject component) buffer currentOffset) (\<lambda>(v, nextOffset).
            decodeTuple_static rest (i + 1) buffer offset nextOffset (obj_set fieldName v result)
              dynamicOffsets)))"
| "decodeTuple_dynamic [] buffer result currentOffset = Inr (VObj result, currentOffset)"
| "decodeTuple_dynamic (dynamicInfo # rest) buffer result currentOffset =
     (case dynamicInfo of (index, dynOffset, fieldName, component) \<Rightarrow>
        andThen (decodeParameter (TObject component) buffer dynOffset) (\<lambda>(v, _).
          decodeTuple_dynamic rest buffer (obj_set fieldName v result) currentOffset))"
  by pat_completeness auto
termination
proof (relation "measures [decode_size, decode_round]", goal_cases)
  case 1
  show ?case by simp
next
  case (2 type buffer offset typeStr)
  then show ?case
    using typeStr_of_size [of type typeStr] by (simp add: recursive_type_def)
next
  case (3 type buffer offset typeStr)
  then show ?case
    by (simp add: recursive_type_def)
next
  case (4 type buffer offset bracketIndex baseType)
  then have "baseType = js_slice type (Num 0) (Num (indexOf type CHR ''[''))"
    by simp
  then show ?case
    using baseType_shorter [of baseType type] by auto
next
  case (5 type buffer offset bracketIndex baseType)
  then have "baseType = js_slice type (Num 0) (Num (indexOf type CHR ''[''))"
    by simp
  then show ?case
    using baseType_shorter [of baseType type] by auto
next
  case 6
  then show ?case by simp
next
  case 7
  then show ?case by simp
next
  case 8
  then show ?case by simp
next
  case 9
  then show ?case by simp
next
  case (10 type buffer offset components)
  then show ?case
    using tuple_components_size [of type components] by (simp add: pending_size_def)
next
  case 11
  then show ?case by (simp add: components_size_def)
next
  case 12
  then show ?case by (simp add: components_size_def pending_size_def)
next
  case 13
  then show ?case by (simp add: components_size_def pending_size_def)
next
  case 14
  then show ?case by (simp add: components_size_def pending_size_def)
next
  case 15
  then show ?case by (auto simp: pending_size_def)
next
  case 16
  then show ?case by (auto simp: pending_size_def)
qed

declare decodeParameter.simps [simp del] decodeArray.simps [simp del]
  decodeArray_dynamic.simps [simp del] decodeArray_static.simps [simp del]
  decodeTuple.simps [simp del]

subsection \<open>Parameter lists and event logs\<close>

fun decodeParameters_loop ::
  "type_arg list \<Rightarrow> buffer \<Rightarrow> jsnum \<Rightarrow> jsval list \<Rightarrow> error + jsval list" where
  "decodeParameters_loop [] buffer staticOffset results = Inr results"
| "decodeParameters_loop (currentType # types) buffer staticOffset results =
     andThen (isDynamicType currentType) (\<lambda>dynamic.
     andThen (if dynamic then
                andThen (decodeUint buffer staticOffset 256) (\<lambda>(offsetValue, _).
                  let dataOffset = Number offsetValue in
                  decodeParameter currentType buffer dataOffset)
              else decodeParameter currentType buffer staticOffset) (\<lambda>(v, _).
       decodeParameters_loop types buffer (num_add staticOffset (Num 32)) (results @ [v])))"

text \<open>\<open>data\<close> is a hex string; a missing \<open>data\<close> is the empty string here (both are
  falsy).\<close>

definition decodeParameters :: "type_arg list \<Rightarrow> string \<Rightarrow> error + jsval list" where
  "decodeParameters types data =
     (if data = [] \<or> data = ''0x''
      then Inr (if length types = 0 then [] else replicate (length types) VNull)
      else decodeParameters_loop types (hexToBuffer data) (Num 0) [])"

record event_abi =
  ev_name :: string
  ev_inputs :: "abi_param list"

record decoded_log =
  log_name :: string
  log_args :: "(string \<times> jsval) list"

text \<open>The property key \<open>param.name\<close>: an absent name is the key \<open>undefined\<close>.\<close>

definition key_of :: "abi_param \<Rightarrow> string" where
  "key_of param = (case p_name param of Some n \<Rightarrow> n | None \<Rightarrow> ''undefined'')"

text \<open>\<open>topics[i + 1]\<close>: \<open>undefined\<close> (None) past the end of the list.\<close>

definition topic_at :: "string list \<Rightarrow> int \<Rightarrow> string option" where
  "topic_at topics i = (if 0 \<le> i \<and> i < int (length topics) then Some (topics ! nat i) else None)"

fun decodeLog_indexed ::
  "abi_param list \<Rightarrow> int \<Rightarrow> string list \<Rightarrow> (string \<times> jsval) list \<Rightarrow> error + (string \<times> jsval) list" where
  "decodeLog_indexed [] i topics args = Inr args"
| "decodeLog_indexed (param # rest) i topics args =
     (case topic_at topics (i + 1) of
        None \<Rightarrow> decodeLog_indexed rest (i + 1) topics args
      | Some topic \<Rightarrow>
          if topic = [] then decodeLog_indexed rest (i + 1) topics args
          else
            andThen (isDynamicType (TString (p_type param))) (\<lambda>dynamic.
              if dynamic then decodeLog_indexed rest (i + 1) topics (obj_set (key_of param) (VStr topic) args)
              else
                andThen (decodeParameter (TString (p_type param)) (hexToBuffer topic) (Num 0)) (\<lambda>(v, _).
                  decodeLog_indexed rest (i + 1) topics (obj_set (key_of param) v args))))"

text \<open>\<open>result.args[nonIndexedParams[i].name] = decodedData[i]\<close>, for every parameter; a
  missing element of \<open>decodedData\<close> would be \<open>undefined\<close>, which does not occur:
  \<open>decodeParameters\<close> returns one value per type.\<close>

fun assign_args :: "abi_param list \<Rightarrow> jsval list \<Rightarrow> (string \<times> jsval) list \<Rightarrow> (string \<times> jsval) list" where
  "assign_args (param # rest) (v # vs) args = assign_args rest vs (obj_set (key_of param) v args)"
| "assign_args _ _ args = args"

definition decodeLog :: "event_abi \<Rightarrow> string \<Rightarrow> string list \<Rightarrow> error + decoded_log" where
  "decodeLog eventAbi data topics =
     (let indexedParams = filter p_indexed (ev_inputs eventAbi);
          nonIndexedParams = filter (\<lambda>input. \<not> p_indexed input) (ev_inputs eventAbi)
      in
      andThen (decodeLog_indexed indexedParams 0 topics []) (\<lambda>args.
      andThen (if length nonIndexedParams > 0 \<and> data \<noteq> [] \<and> data \<noteq> ''0x''
               then andThen (decodeParameters (map (\<lambda>param. TString (p_type param)) nonIndexedParams) data)
                      (\<lambda>decodedData. Inr (assign_args nonIndexedParams decodedData args))
               else Inr args) (\<lambda>args'.
      Inr \<lparr>log_name = ev_name eventAbi, log_args = args'\<rparr>)))"

section \<open>Signatures (src/lib/utils.js)\<close>

definition getBaseCanonicalType :: "string \<Rightarrow> string" where
  "getBaseCanonicalType type =
     (if type = ''tuple'' then ''tuple''
      else if type = ''uint'' then ''uint256''
      else if type = ''int'' then ''int256''
      else if type = ''bytes'' \<and> \<not> includes_str type ''bytes'' then ''bytes''
      else type)"

text \<open>\<open>param.type.split('[')[0]\<close> is the text before the first bracket.\<close>

definition getCanonicalType :: "abi_param \<Rightarrow> string" where
  "getCanonicalType param =
     (if includes_str (p_type param) ''[''
      then (let baseType = takeWhile (\<lambda>c. c \<noteq> CHR ''['') (p_type param);
                arrayPart = drop (length baseType) (p_type param)
            in getBaseCanonicalType baseType @ arrayPart)
      else getBaseCanonicalType (p_type param))"

text \<open>\<open>xs.join(',')\<close>.\<close>

fun join_comma :: "string list \<Rightarrow> string" where
  "join_comma [] = []"
| "join_comma [x] = x"
| "join_comma (x # y # zs) = x @ '','' @ join_comma (y # zs)"

record function_abi =
  fn_name :: string
  fn_inputs :: "abi_param list"

definition getFunctionSignature :: "function_abi \<Rightarrow> string" where
  "getFunctionSignature func =
     fn_name func @ ''('' @ join_comma (map getCanonicalType (fn_inputs func)) @ '')''"

definition getEventSignature :: "event_abi \<Rightarrow> string" where
  "getEventSignature event =
     ev_name event @ ''('' @ join_comma (map getCanonicalType (ev_inputs event)) @ '')''"


section \<open>Properties\<close>

subsection \<open>The scenarios of the specification\<close>

text \<open>The model on the decoding scenarios that the specification lists: the pair
  \<open>(bytes, uint256)\<close> of scenario 5, the \<open>Transfer\<close> log of scenario 4, and the value 256
  in a \<open>uint8\<close> slot of scenario 6.\<close>

lemma scenario_bytes_uint:
  "decodeParameters [TString ''bytes'', TString ''uint256'']
     (''0x0000000000000000000000000000000000000000000000000000000000000040''
      @ ''000000000000000000000000000000000000000000000000000000000000002a''
      @ ''0000000000000000000000000000000000000000000000000000000000000002''
      @ ''1234000000000000000000000000000000000000000000000000000000000000'')
   = Inr [VStr ''0x1234'', VStr ''42'']"
  by code_simp

lemma scenario_transfer_log:
  "decodeLog \<lparr>ev_name = ''Transfer'',
             ev_inputs = [Param (Some ''from'') ''address'' True None,
                          Param (Some ''to'') ''address'' True None,
                          Param (Some ''value'') ''uint256'' False None]\<rparr>
     ''0x0000000000000000000000000000000000000000000000000de0b6b3a7640000''
     [''0xddf252ad1be2c89b69c2b068fc378daa952ba7f163c4a11628f55a4df523b3ef'',
      ''0x000000000000000000000000742d35cc6634c0532925a3b8d8e9eed89b7a6de6'',
      ''0x000000000000000000000000742d35cc6634c0532925a3b8d8e9eed89b7a6de7'']
   = Inr \<lparr>log_name = ''Transfer'',
          log_args = [(''from'', VStr ''0x742d35cc6634c0532925a3b8d8e9eed89b7a6de6''),
                      (''to'', VStr ''0x742d35cc6634c0532925a3b8d8e9eed89b7a6de7''),
                      (''value'', VStr ''1000000000000000000'')]\<rparr>"
  by code_simp

lemma scenario_uint8_overflow:
  "decodeParameters [TString ''uint8'']
     ''0x0000000000000000000000000000000000000000000000000000000000000100''
   = Inl (ValueTooLarge 8 256)"
  by code_simp

subsection \<open>Hex text and big-endian values\<close>

text \<open>A 32-byte big-endian word, for the examples.\<close>

definition word32 :: "int \<Rightarrow> buffer" where
  "word32 n = map (\<lambda>k. word_of_int (drop_bit (8 * (31 - k)) n)) [0..<32]"

text \<open>The value of a byte sequence read as a big-endian unsigned integer.\<close>

definition be_value :: "buffer \<Rightarrow> int" where
  "be_value b = foldl (\<lambda>a x. a * 256 + uint x) 0 b"

text \<open>The 256-bit word at byte \<open>i\<close>: the big-endian value of those of the bytes \<open>i\<close> to
  \<open>i + 31\<close> that the buffer has.\<close>

definition word_at :: "buffer \<Rightarrow> int \<Rightarrow> int" where
  "word_at b i = be_value (js_slice b (Num i) (Num (i + 32)))"

lemma hexval_hexdigit: "0 \<le> d \<Longrightarrow> d < 16 \<Longrightarrow> hexval (hexdigit d) = Some d"
proof -
  assume "0 \<le> d" "d < 16"
  then have "d = 0 \<or> d = 1 \<or> d = 2 \<or> d = 3 \<or> d = 4 \<or> d = 5 \<or> d = 6 \<or> d = 7
      \<or> d = 8 \<or> d = 9 \<or> d = 10 \<or> d = 11 \<or> d = 12 \<or> d = 13 \<or> d = 14 \<or> d = 15"
    by presburger
  then show ?thesis
    by (elim disjE) (simp_all add: hexval_def hexdigit_def)
qed

lemma hexval_high: "hexval (hexdigit (uint (x::byte) div 16)) = Some (uint x div 16)"
  using uint_lt2p [of x] by (intro hexval_hexdigit) (auto simp: pos_imp_zdiv_nonneg_iff)

lemma hexval_low: "hexval (hexdigit (uint (x::byte) mod 16)) = Some (uint x mod 16)"
  by (intro hexval_hexdigit) auto

lemma toString_hex_Cons:
  "toString_hex (x # xs) = hexdigit (uint x div 16) # hexdigit (uint x mod 16) # toString_hex xs"
  by (simp add: toString_hex_def)

lemma toString_hex_Nil [simp]: "toString_hex [] = []"
  by (simp add: toString_hex_def)

lemma hex_value_toString_hex:
  "hex_value acc (toString_hex b) = Some (foldl (\<lambda>a x. a * 256 + uint x) acc b)"
proof (induction b arbitrary: acc)
  case Nil
  then show ?case by simp
next
  case (Cons x xs)
  have e: "16 * (16 * acc + uint x div 16) + uint x mod 16 = acc * 256 + uint x"
    by presburger
  have "hex_value acc (toString_hex (x # xs))
        = hex_value (16 * (16 * acc + uint x div 16) + uint x mod 16) (toString_hex xs)"
    by (simp add: toString_hex_Cons hexval_high hexval_low)
  also have "\<dots> = hex_value (acc * 256 + uint x) (toString_hex xs)"
    by (simp only: e)
  finally show ?case
    by (simp add: Cons.IH)
qed

lemma toString_hex_Nil_iff: "toString_hex b = [] \<longleftrightarrow> b = []"
  by (cases b) (simp_all add: toString_hex_Cons)

lemma BigInt_hex_toString_hex:
  "b \<noteq> [] \<Longrightarrow> BigInt_hex (toString_hex b) = Inr (be_value b)"
  by (simp add: BigInt_hex_def toString_hex_Nil_iff hex_value_toString_hex be_value_def)

lemma all_ones_value: "BigInt_hex (toString_hex (replicate 32 255)) = Inr (2 ^ 256 - 1)"
  by code_simp

subsection \<open>Slices, words and decimal text\<close>


lemma length_toString_hex: "length (toString_hex b) = 2 * length b"
  by (induction b) (simp_all add: toString_hex_Cons)

lemma word_of_nibbles: "(word_of_int (16 * (uint x div 16) + uint x mod 16) :: byte) = x"
proof -
  have "16 * (uint x div 16) + uint x mod 16 = uint x"
    by presburger
  then show ?thesis by simp
qed

lemma Buffer_from_hex_toString_hex: "Buffer_from_hex (toString_hex b) = b"
  by (induction b) (simp_all add: toString_hex_Cons hexval_high hexval_low word_of_nibbles)

lemma slice_nat: "js_slice b (Num (int m)) (Num (int n)) = take (n - m) (drop m b)"
proof (cases "m \<le> length b")
  case True
  show ?thesis
  proof (cases "n \<le> length b")
    case True
    then show ?thesis
      using \<open>m \<le> length b\<close> by (simp add: js_slice_def Let_def min_absorb1)
  next
    case False
    then have "length (drop m b) \<le> n - m"
      by simp
    then have "take (n - m) (drop m b) = drop m b"
      by (rule take_all)
    then show ?thesis
      using False \<open>m \<le> length b\<close> by (simp add: js_slice_def Let_def min_absorb1 min_absorb2)
  qed
next
  case False
  then show ?thesis
    by (simp add: js_slice_def Let_def min_absorb2)
qed

lemma slice_nonneg:
  assumes "0 \<le> i" "i \<le> j"
  shows "js_slice b (Num i) (Num j) = take (nat (j - i)) (drop (nat i) b)"
  using slice_nat [of b "nat i" "nat j"] assms by (simp add: nat_diff_distrib)

lemma slice_from_drop: "0 \<le> i \<Longrightarrow> slice_from s i = drop (nat i) s"
  using slice_nat [of s "nat i" "length s"] by (simp add: slice_from_def)

lemma adjustOffset_32:
  "int (adjustOffset (Num (i + 32)) n) \<le> int (adjustOffset (Num i) n) + 32"
  by (auto simp: max_def min_def)

lemma length_slice_32: "length (js_slice b (Num i) (Num (i + 32))) \<le> 32"
proof -
  have "adjustOffset (Num (i + 32)) (length b) - adjustOffset (Num i) (length b) \<le> 32"
    using adjustOffset_32 [of i "length b"] by linarith
  then show ?thesis
    by (simp add: js_slice_def Let_def del: adjustOffset.simps)
qed

lemma be_value_foldl_bounds:
  "0 \<le> acc \<Longrightarrow> 0 \<le> foldl (\<lambda>a x. a * 256 + uint (x::byte)) acc b
     \<and> foldl (\<lambda>a x. a * 256 + uint x) acc b < (acc + 1) * 256 ^ length b"
proof (induction b arbitrary: acc)
  case Nil
  then show ?case by simp
next
  case (Cons x xs)
  have x: "0 \<le> uint x" "uint x < 256"
    using uint_lt2p [of x] by simp_all
  have a: "0 \<le> acc * 256 + uint x"
    using Cons.prems x by simp
  have le: "(acc * 256 + uint x + 1) * 256 ^ length xs \<le> ((acc + 1) * 256) * 256 ^ length xs"
    using x by (intro mult_right_mono) auto
  have e: "((acc + 1) * 256) * 256 ^ length xs = (acc + 1) * 256 ^ length (x # xs)"
    by simp
  have "foldl (\<lambda>a x. a * 256 + uint x) (acc * 256 + uint x) xs
        < (acc * 256 + uint x + 1) * 256 ^ length xs"
    using Cons.IH [OF a] by simp
  also note le
  also note e
  finally show ?case
    using Cons.IH [OF a] by simp
qed

lemma be_value_nonneg: "0 \<le> be_value b"
  using be_value_foldl_bounds [of 0 b] by (simp add: be_value_def)

lemma be_value_less: "be_value b < 256 ^ length b"
  using be_value_foldl_bounds [of 0 b] by (simp add: be_value_def)

lemma be_value_Nil [simp]: "be_value [] = 0"
  by (simp add: be_value_def)

lemma be_value_word_less:
  assumes "length b \<le> 32"
  shows "be_value b < 2 ^ 256"
proof -
  have "(256::int) ^ length b \<le> 256 ^ 32"
    using assms by (intro power_increasing) auto
  then show ?thesis
    using be_value_less [of b] by simp
qed

lemma word_at_nonneg: "0 \<le> word_at b i"
  by (simp add: word_at_def be_value_nonneg)

lemma word_at_less: "word_at b i < 2 ^ 256"
  unfolding word_at_def by (rule be_value_word_less) (rule length_slice_32)

text \<open>The value that the general path of \<open>decodeUint\<close> reads: the bytes of the
  (clamped) word, 0 when there is none.\<close>

lemma decodeUint_256:
  assumes "- (2 ^ 53) \<le> i" "i + 32 \<le> 2 ^ 53"
  shows "decodeUint buffer (Num i) 256 = Inr (VStr (BigInt_toString (word_at buffer i)), Num (i + 32))"
proof -
  let ?w = "js_slice buffer (Num i) (Num (i + 32))"
  have r: "round_double (i + 32) = i + 32"
    using assms by (intro round_double_exact) simp
  have lt: "be_value ?w < 2 ^ 256"
    by (rule be_value_word_less) (rule length_slice_32)
  show ?thesis
  proof (cases "?w = []")
    case True
    then show ?thesis
      by (simp add: decodeUint_def bigint_shl_def Let_def r word_at_def)
  next
    case False
    then show ?thesis
      using lt BigInt_hex_toString_hex [OF False]
      by (simp add: decodeUint_def bigint_shl_def Let_def toString_hex_Nil_iff r word_at_def)
  qed
qed

lemma of_char_hexdigit: "0 \<le> d \<Longrightarrow> d < 10 \<Longrightarrow> (of_char (hexdigit d) :: int) = 48 + d"
proof -
  assume "0 \<le> d" "d < 10"
  then have "d = 0 \<or> d = 1 \<or> d = 2 \<or> d = 3 \<or> d = 4 \<or> d = 5 \<or> d = 6 \<or> d = 7 \<or> d = 8 \<or> d = 9"
    by presburger
  then show ?thesis
    by (elim disjE) (simp_all add: hexdigit_def)
qed

lemma decimal_value_append:
  "decimal_value acc (xs @ ys) = (case decimal_value acc xs of None \<Rightarrow> None | Some a \<Rightarrow> decimal_value a ys)"
  by (induction xs arbitrary: acc) (simp_all add: Let_def)

lemma decimal_value_decimal:
  "0 \<le> n \<Longrightarrow> decimal_value acc (decimal n) = Some (acc * 10 ^ length (decimal n) + n)"
proof (induction n arbitrary: acc rule: decimal.induct)
  case (1 n)
  show ?case
  proof (cases "n < 10")
    case True
    then show ?thesis
      using "1.prems" by (subst (1 2) decimal.simps) (simp add: of_char_hexdigit)
  next
    case False
    have d: "0 \<le> n mod 10" "n mod 10 < 10" by simp_all
    have q: "0 \<le> n div 10" using "1.prems" by simp
    have ih: "decimal_value acc (decimal (n div 10))
              = Some (acc * 10 ^ length (decimal (n div 10)) + n div 10)"
      using "1.IH" [OF False q] .
    have e: "10 * (acc * 10 ^ length (decimal (n div 10)) + n div 10) + n mod 10
             = acc * 10 ^ Suc (length (decimal (n div 10))) + n"
      by (simp add: algebra_simps)
    have "decimal n = decimal (n div 10) @ [hexdigit (n mod 10)]"
      using False by (subst decimal.simps) simp
    then show ?thesis
      using ih e d by (simp add: decimal_value_append of_char_hexdigit)
  qed
qed

lemma Number_BigInt_toString:
  "0 \<le> n \<Longrightarrow> Number (VStr (BigInt_toString n)) = Num (round_double n)"
  by (simp add: BigInt_toString_def decimal_value_decimal)

lemma Number_BigInt_toString_exact:
  "0 \<le> n \<Longrightarrow> n \<le> 2 ^ 53 \<Longrightarrow> Number (VStr (BigInt_toString n)) = Num n"
  by (simp add: Number_BigInt_toString del: Number.simps)

lemma slice_whole_word: "length w = 32 \<Longrightarrow> js_slice w (Num 0) (Num 32) = w"
  using slice_nat [of w 0 32] by simp

subsection \<open>Signed integers\<close>

text \<open>
  C1 (the code departs from the claim).  The claim: \<open>Int(b)\<close> subtracts \<open>2^256\<close> exactly
  when the top bit of the 256-bit word is set, so that thirty-two \<open>0xFF\<close> bytes decode to
  \<open>-1\<close> for every width.  \<open>decodeInt\<close> compares the whole 256-bit value with \<open>2^(b-1)\<close>
  and subtracts \<open>2^b\<close>: for every width below 256 the word of thirty-two \<open>0xFF\<close> bytes
  is rejected as out of range, with the value \<open>2^256 - 1 - 2^b\<close>.
\<close>

theorem decodeInt_rejects_minus_one:
  assumes "0 < bits" "bits < 256"
  shows "decodeInt (replicate 32 255) (Num 0) bits
         = Inl (ValueOutOfRange bits (2 ^ 256 - 1 - 2 ^ nat bits))"
proof -
  have sl: "js_slice (replicate 32 255 :: buffer) (Num 0) (Num 32) = replicate 32 255"
    by (simp add: js_slice_def)
  have p1: "(2::int) ^ nat (bits - 1) \<le> 2 ^ 254"
    using assms by (intro power_increasing) auto
  have p2: "(2::int) ^ nat bits = 2 * 2 ^ nat (bits - 1)"
    using assms by (simp add: nat_diff_distrib' flip: power_Suc)
  have p3: "(2::int) ^ 256 = 4 * 2 ^ 254" by simp
  show ?thesis
    using assms p1 p2 p3
    by (simp add: decodeInt_def sl all_ones_value bigint_shl_def Let_def del: power_Suc)
qed

text \<open>The instance \<open>int8\<close>: the canonical encoding of \<open>-1\<close> is refused.\<close>

theorem decodeInt_rejects_minus_one_int8:
  "decodeInt (replicate 32 255) (Num 0) 8 = Inl (ValueOutOfRange 8 (2 ^ 256 - 257))"
  using decodeInt_rejects_minus_one [of 8] by simp

text \<open>The same through \<open>decodeParameters\<close>, for the type \<open>int8\<close>.\<close>

lemma decodeParameters_int8_minus_one:
  "decodeParameters [TString ''int8'']
     ''0xffffffffffffffffffffffffffffffffffffffffffffffffffffffffffffffff''
   = Inl (ValueOutOfRange 8 (2 ^ 256 - 257))"
  by code_simp

text \<open>What \<open>decodeInt\<close> computes on a whole word; for 256 bits it is the rule of the
  claim, and nothing is rejected.\<close>

lemma decodeInt_word:
  assumes "length w = 32" "0 < bits"
  shows "decodeInt w (Num 0) bits =
     (let raw = be_value w;
          v = (if 2 ^ nat (bits - 1) \<le> raw then raw - 2 ^ nat bits else raw)
      in if v < - (2 ^ nat (bits - 1)) \<or> 2 ^ nat (bits - 1) - 1 < v
         then Inl (ValueOutOfRange bits v)
         else Inr (VStr (BigInt_toString v), Num 32))"
proof -
  have "w \<noteq> []"
    using assms(1) by auto
  then show ?thesis
    using assms
    by (simp add: decodeInt_def slice_whole_word BigInt_hex_toString_hex bigint_shl_def Let_def)
qed

lemma decodeInt_256:
  assumes "length w = 32"
  shows "decodeInt w (Num 0) 256 =
     Inr (VStr (BigInt_toString (if 2 ^ 255 \<le> be_value w then be_value w - 2 ^ 256 else be_value w)),
          Num 32)"
proof -
  have "be_value w < 2 ^ 256" "0 \<le> be_value w"
    using assms be_value_word_less [of w] be_value_nonneg [of w] by simp_all
  then show ?thesis
    using decodeInt_word [OF assms, of 256] by (simp add: Let_def)
qed

subsection \<open>Dynamic types\<close>

text \<open>
  C2 (the code departs from the claim).  The claim: \<open>isDynamicType\<close> is true for a fixed
  array whose element type is dynamic, such as \<open>string[2]\<close> or \<open>bytes[3]\<close>.  The
  predicate looks for the text \<open>[]\<close> only, so both are reported static, by the decoder
  and by its older copy.
\<close>

theorem isDynamicType_fixed_array_of_dynamic:
  "isDynamicType (TString ''string[2]'') = Inr False
   \<and> isDynamicType (TString ''bytes[3]'') = Inr False
   \<and> isDynamicType_older ''string[2]'' = False
   \<and> isDynamicType_older ''bytes[3]'' = False"
  by code_simp

subsection \<open>Unsigned integers\<close>

text \<open>
  C3 (the code departs from the claim).  The claim: a word whose 256-bit value is at least
  \<open>2^b\<close> is rejected by \<open>Uint(b)\<close>, also when its non-zero bytes lie above the low 8
  bytes.  For a width of at most 64 bits \<open>decodeUint\<close> reads the low 8 bytes only: a word
  whose low 8 bytes are zero decodes to \<open>0\<close> whatever its upper 24 bytes hold.
\<close>

theorem decodeUint_ignores_high_bytes:
  assumes "length hi = 24" "0 \<le> bits" "bits \<le> 64"
  shows "decodeUint (hi @ replicate 8 0) (Num 0) bits = Inr (VStr ''0'', Num 32)"
proof -
  have "\<not> (2::int) ^ nat bits < 1"
    by (simp add: not_less)
  then show ?thesis
    using assms
    by (simp add: decodeUint_def bigint_shl_def nth_append
        BigInt_toString_def decimal.simps hexdigit_def Let_def)
qed

text \<open>The instance of the claim: the value \<open>2^64\<close> in a \<open>uint8\<close> slot.\<close>

theorem decodeUint_accepts_two_to_64_as_uint8:
  "decodeUint (replicate 23 0 @ [1] @ replicate 8 0) (Num 0) 8 = Inr (VStr ''0'', Num 32)"
  using decodeUint_ignores_high_bytes [of "replicate 23 0 @ [1]" 8] by simp

text \<open>The same through \<open>decodeParameters\<close>, for the type \<open>uint8\<close>.\<close>

lemma decodeParameters_uint8_two_to_64:
  "decodeParameters [TString ''uint8'']
     ''0x0000000000000000000000000000000000000000000000010000000000000000''
   = Inr [VStr ''0'']"
  by code_simp

text \<open>Above 64 bits \<open>decodeUint\<close> reads the whole word and rejects exactly the values of
  \<open>2^bits\<close> and more.\<close>

lemma decodeUint_wide:
  assumes "length w = 32" "64 < bits"
  shows "decodeUint w (Num 0) bits =
     (if be_value w < 2 ^ nat bits then Inr (VStr (BigInt_toString (be_value w)), Num 32)
      else Inl (ValueTooLarge bits (be_value w)))"
proof -
  have "w \<noteq> []"
    using assms(1) by auto
  then show ?thesis
    using assms
    by (auto simp: decodeUint_def slice_whole_word BigInt_hex_toString_hex bigint_shl_def Let_def
        toString_hex_Nil_iff)
qed

subsection \<open>The head cursor of a parameter list\<close>

text \<open>
  C4 (the code departs from the claim).  The claim: after a static parameter the head
  cursor advances by the full head width of its type, 64 bytes for \<open>uint256[2]\<close>.
  \<open>decodeParameters\<close> advances by 32 bytes after every parameter: on the three words
  1, 2, 3 the types \<open>uint256[2], uint256\<close> give the array \<open>[1, 2]\<close> and then 2, the
  second word read again, not 3.
\<close>

theorem decodeParameters_static_array_then_uint:
  "decodeParameters [TString ''uint256[2]'', TString ''uint256'']
     (''0x0000000000000000000000000000000000000000000000000000000000000001''
      @ ''0000000000000000000000000000000000000000000000000000000000000002''
      @ ''0000000000000000000000000000000000000000000000000000000000000003'')
   = Inr [VArr [VStr ''1'', VStr ''2''], VStr ''2'']"
  by code_simp

text \<open>Inside a tuple the cursor does advance by the width of a static field:
  \<open>decodeTuple\<close> continues at the \<open>nextOffset\<close> that the field's decoder returns.\<close>

lemma decodeTuple_advances_by_nextOffset:
  "decodeParameter
     (TObject (Param (Some ''t'') ''tuple'' False
        (Some [Param (Some ''pair'') ''uint256[2]'' False None,
               Param (Some ''last'') ''uint256'' False None])))
     (word32 1 @ word32 2 @ word32 3) (Num 0)
   = Inr (VObj [(''pair'', VArr [VStr ''1'', VStr ''2'']), (''last'', VStr ''3'')], Num 96)"
  by code_simp

subsection \<open>Reads past the end of the buffer\<close>

text \<open>
  C5, as stated, fails: nothing raises a Truncated error.  On a buffer of two bytes the
  parameter list of one \<open>address\<close> decodes to the text \<open>0x\<close>, an address made of no
  byte at all.
\<close>

theorem decodeParameters_truncated_address:
  "decodeParameters [TString ''address''] ''0x1234'' = Inr [VStr ''0x'']"
  by code_simp

lemma slice_past_end:
  assumes "0 \<le> i" "i \<le> j" "int (length b) \<le> j"
  shows "js_slice b (Num i) (Num j) = drop (nat i) b"
proof -
  have "length (drop (nat i) b) \<le> nat (j - i)"
    using assms by simp
  then have "take (nat (j - i)) (drop (nat i) b) = drop (nat i) b"
    by (rule take_all)
  then show ?thesis
    using assms by (simp add: slice_nonneg)
qed

lemma word_at_take: "0 \<le> i \<Longrightarrow> word_at b i = be_value (take 32 (drop (nat i) b))"
  by (simp add: word_at_def slice_nonneg)

lemma ceil32_bounds: "0 \<le> (L::int) \<Longrightarrow> 0 \<le> (L + 31) div 32 * 32 \<and> (L + 31) div 32 * 32 \<le> L + 31"
  by presburger

lemma decodeBytesAt_value:
  assumes "0 \<le> off" "off + 64 + word_at buffer off \<le> 2 ^ 53"
  shows "decodeBytesAt buffer (Num off) =
     Inr (VStr (''0x'' @ toString_hex (take (nat (word_at buffer off)) (drop (nat off + 32) buffer))),
          Num (off + 32 + (word_at buffer off + 31) div 32 * 32))"
proof -
  let ?L = "word_at buffer off"
  have L: "0 \<le> ?L" by (rule word_at_nonneg)
  have u: "decodeUint buffer (Num off) 256 = Inr (VStr (BigInt_toString ?L), Num (off + 32))"
    using assms L by (intro decodeUint_256) simp_all
  have n: "Number (VStr (BigInt_toString ?L)) = Num ?L"
    using assms L by (intro Number_BigInt_toString_exact) simp_all
  have c: "0 \<le> (?L + 31) div 32 * 32" "(?L + 31) div 32 * 32 \<le> ?L + 31"
    using ceil32_bounds [OF L] by simp_all
  have s: "js_slice buffer (Num (off + 32)) (Num (off + 32 + ?L)) = take (nat ?L) (drop (nat off + 32) buffer)"
    using assms L by (simp add: slice_nonneg nat_add_distrib)
  show ?thesis
    using assms L c
    by (simp add: decodeBytesAt_def u n Let_def s del: Number.simps)
qed

text \<open>
  C5, amended.  The reads made through \<open>Buffer.slice\<close> are not checked.  When the
  declared layout of an address word, of a fixed-size bytes value, of a 256-bit offset
  or length word, or of a dynamic bytes payload extends past the end of the buffer,
  \<open>slice\<close> clamps to the buffer: the value is built from those bytes of the declared
  range that exist (fewer than declared, possibly none), and the decode succeeds.
  Offsets and lengths are taken up to \<open>2^53\<close>, where the arithmetic of JavaScript
  numbers is exact.
\<close>

theorem reads_past_the_end_are_clamped:
  "(0 \<le> off \<and> off + 32 \<le> 2 ^ 53 \<and> int (length buffer) < off + 32 \<longrightarrow>
      decodeAddress buffer (Num off)
        = Inr (VStr (''0x'' @ toString_hex (drop (nat off + 12) buffer)), Num (off + 32))
      \<and> length (drop (nat off + 12) buffer) < 20)
   \<and> (0 \<le> off \<and> off + 32 \<le> 2 ^ 53 \<and> 0 < n \<and> off + n \<le> 2 ^ 53 \<and> int (length buffer) < off + n \<longrightarrow>
      decodeFixedBytes buffer (Num off) (Num n)
        = Inr (VStr (''0x'' @ toString_hex (drop (nat off) buffer)), Num (off + 32))
      \<and> int (length (drop (nat off) buffer)) < n)
   \<and> (0 \<le> off \<and> off + 32 \<le> 2 ^ 53 \<and> int (length buffer) < off + 32 \<longrightarrow>
      decodeUint buffer (Num off) 256
        = Inr (VStr (BigInt_toString (be_value (drop (nat off) buffer))), Num (off + 32))
      \<and> length (drop (nat off) buffer) < 32)
   \<and> (0 \<le> off \<and> off + 32 \<le> int (length buffer)
        \<and> off + 64 + be_value (take 32 (drop (nat off) buffer)) \<le> 2 ^ 53
        \<and> int (length buffer) < off + 32 + be_value (take 32 (drop (nat off) buffer)) \<longrightarrow>
      decodeBytesAt buffer (Num off)
        = Inr (VStr (''0x'' @ toString_hex (drop (nat off + 32) buffer)),
               Num (off + 32 + (be_value (take 32 (drop (nat off) buffer)) + 31) div 32 * 32))
      \<and> int (length (drop (nat off + 32) buffer)) < be_value (take 32 (drop (nat off) buffer)))"
proof (intro conjI impI)
  assume a: "0 \<le> off \<and> off + 32 \<le> 2 ^ 53 \<and> int (length buffer) < off + 32"
  then have "js_slice buffer (Num (off + 12)) (Num (off + 32)) = drop (nat (off + 12)) buffer"
    by (intro slice_past_end) auto
  then show "decodeAddress buffer (Num off)
        = Inr (VStr (''0x'' @ toString_hex (drop (nat off + 12) buffer)), Num (off + 32))"
    using a by (simp add: decodeAddress_def nat_add_distrib)
  show "length (drop (nat off + 12) buffer) < 20"
    using a by auto
next
  assume a: "0 \<le> off \<and> off + 32 \<le> 2 ^ 53 \<and> 0 < n \<and> off + n \<le> 2 ^ 53 \<and> int (length buffer) < off + n"
  then have "js_slice buffer (Num off) (Num (off + n)) = drop (nat off) buffer"
    by (intro slice_past_end) auto
  then show "decodeFixedBytes buffer (Num off) (Num n)
        = Inr (VStr (''0x'' @ toString_hex (drop (nat off) buffer)), Num (off + 32))"
    using a by (simp add: decodeFixedBytes_def)
  show "int (length (drop (nat off) buffer)) < n"
    using a by (simp add: of_nat_diff) linarith
next
  assume a: "0 \<le> off \<and> off + 32 \<le> 2 ^ 53 \<and> int (length buffer) < off + 32"
  then have "js_slice buffer (Num off) (Num (off + 32)) = drop (nat off) buffer"
    by (intro slice_past_end) auto
  then show "decodeUint buffer (Num off) 256
        = Inr (VStr (BigInt_toString (be_value (drop (nat off) buffer))), Num (off + 32))"
    using a by (simp add: decodeUint_256 word_at_def)
  show "length (drop (nat off) buffer) < 32"
    using a by auto
next
  let ?L = "be_value (take 32 (drop (nat off) buffer))"
  assume a: "0 \<le> off \<and> off + 32 \<le> int (length buffer)
        \<and> off + 64 + ?L \<le> 2 ^ 53 \<and> int (length buffer) < off + 32 + ?L"
  have w: "word_at buffer off = ?L"
    using a by (simp add: word_at_take)
  have "length (drop (nat off + 32) buffer) \<le> nat ?L"
    using a by auto
  then have "take (nat ?L) (drop (nat off + 32) buffer) = drop (nat off + 32) buffer"
    by (rule take_all)
  then show "decodeBytesAt buffer (Num off)
        = Inr (VStr (''0x'' @ toString_hex (drop (nat off + 32) buffer)),
               Num (off + 32 + (?L + 31) div 32 * 32))"
    using a decodeBytesAt_value [of off buffer] by (simp add: w)
  show "int (length (drop (nat off + 32) buffer)) < ?L"
    using a by auto
qed

text \<open>On the 34 bytes of a length word 5 followed by two bytes: the reads at offset 16
  and the payload of 5 bytes declared at offset 0.\<close>

theorem reads_past_the_end_are_clamped_example:
  "decodeAddress (word32 5 @ [1, 2]) (Num 16) = Inr (VStr ''0x000000050102'', Num 48)
   \<and> decodeFixedBytes (word32 5 @ [1, 2]) (Num 16) (Num 32)
       = Inr (VStr ''0x000000000000000000000000000000050102'', Num 48)
   \<and> decodeUint (word32 5 @ [1, 2]) (Num 16) 256 = Inr (VStr ''327938'', Num 48)
   \<and> decodeBytesAt (word32 5 @ [1, 2]) (Num 0) = Inr (VStr ''0x0102'', Num 64)"
proof -
  let ?b = "word32 5 @ [1, 2]"
  have len: "int (length ?b) = 34"
    by (simp add: word32_def)
  have L: "be_value (take 32 (drop (nat 0) ?b)) = 5"
    by code_simp
  have e1: "''0x'' @ toString_hex (drop (nat 16 + 12) ?b) = ''0x000000050102''"
    by code_simp
  have e2: "''0x'' @ toString_hex (drop (nat 16) ?b) = ''0x000000000000000000000000000000050102''"
    by code_simp
  have e3: "BigInt_toString (be_value (drop (nat 16) ?b)) = ''327938''"
    by code_simp
  have e4: "''0x'' @ toString_hex (drop (nat 0 + 32) ?b) = ''0x0102''"
    by code_simp
  have a: "decodeAddress ?b (Num 16)
             = Inr (VStr (''0x'' @ toString_hex (drop (nat 16 + 12) ?b)), Num (16 + 32))"
    and f: "decodeFixedBytes ?b (Num 16) (Num 32)
             = Inr (VStr (''0x'' @ toString_hex (drop (nat 16) ?b)), Num (16 + 32))"
    and u: "decodeUint ?b (Num 16) 256
             = Inr (VStr (BigInt_toString (be_value (drop (nat 16) ?b))), Num (16 + 32))"
    using reads_past_the_end_are_clamped [of 16 ?b 32] len by simp_all
  have d: "decodeBytesAt ?b (Num 0)
             = Inr (VStr (''0x'' @ toString_hex (drop (nat 0 + 32) ?b)),
                    Num (0 + 32 + (be_value (take 32 (drop (nat 0) ?b)) + 31) div 32 * 32))"
    using reads_past_the_end_are_clamped [of 0 ?b 32] len L by simp
  show ?thesis
    unfolding a f u d e1 e2 e3 e4 L by simp
qed

text \<open>The reads that do not go through \<open>Buffer.slice\<close> do fail past the end of the
  buffer, though not with a Truncated error: a \<open>bool\<close> and an unsigned integer of at
  most 64 bits with the RangeError of \<open>readUInt8\<close> and \<open>readUInt32BE\<close>, a signed integer
  of which no byte is left with the SyntaxError of \<open>BigInt('0x')\<close>.\<close>

lemma readUInt8_past_end:
  "int (length b) \<le> i \<Longrightarrow> readUInt8 b (Num i) = Inl OutOfRange"
  by simp

lemma readUInt32BE_past_end:
  "int (length b) \<le> i + 3 \<Longrightarrow> readUInt32BE b (Num i) = Inl OutOfRange"
  by simp

lemma readUInt32BE_error: "readUInt32BE b off = Inl e \<Longrightarrow> e = OutOfRange"
  by (cases off) (auto split: if_splits)

lemma decodeBool_past_end:
  assumes "0 \<le> off" "off + 32 \<le> 2 ^ 53" "int (length buffer) < off + 32"
  shows "decodeBool buffer (Num off) = Inl OutOfRange"
  using assms by (simp add: decodeBool_def)

lemma decodeUint_narrow_past_end:
  assumes "0 \<le> off" "off + 32 \<le> 2 ^ 53" "int (length buffer) < off + 32" "bits \<le> 64"
  shows "decodeUint buffer (Num off) bits = Inl OutOfRange"
proof -
  have "readUInt32BE buffer (Num (off + 28)) = Inl OutOfRange"
    using assms by (intro readUInt32BE_past_end) simp
  then show ?thesis
    using assms
    by (cases "readUInt32BE buffer (Num (off + 24))")
      (auto simp: decodeUint_def Let_def dest: readUInt32BE_error simp del: readUInt32BE.simps)
qed

lemma decodeInt_past_end:
  assumes "0 \<le> off" "off + 32 \<le> 2 ^ 53" "int (length buffer) \<le> off"
  shows "decodeInt buffer (Num off) bits = Inl SyntaxError"
proof -
  have "js_slice buffer (Num off) (Num (off + 32)) = drop (nat off) buffer"
    using assms by (intro slice_past_end) auto
  then show ?thesis
    using assms by (simp add: decodeInt_def BigInt_hex_def Let_def)
qed

subsection \<open>Strings\<close>

text \<open>
  C6, as stated, fails twice.  The payload of a space, a NUL and \<open>a\<close> is valid UTF-8
  and decodes to the text \<open>a\<close> alone: the NUL and the leading space are removed.  The
  payload of the single byte \<open>0xFF\<close> is not UTF-8 and decodes, without any error, to
  the replacement character U+FFFD.
\<close>

theorem decodeString_cleans_and_replaces:
  "decodeString (word32 3 @ [0x20, 0x00, 0x61]) (Num 0) = Inr (VText [97], Num 64)
   \<and> decodeString (word32 1 @ [0xFF]) (Num 0) = Inr (VText [65533], Num 64)"
  by code_simp

text \<open>
  C6, amended.  \<open>decodeString\<close> does not validate and does not fail: its value is the
  text that \<open>toString('utf8')\<close> gives for the \<open>L\<close> payload bytes, those of them that the
  buffer has (an ill-formed sequence becomes U+FFFD), with every NUL removed and the
  white space at both ends trimmed; \<open>L\<close> is the length word, and the next offset is past
  the padded payload.  The offset and the length word are taken up to \<open>2^53\<close>, where
  the arithmetic of JavaScript numbers is exact.
\<close>

theorem decodeString_value:
  assumes "0 \<le> off" and "off + 64 + word_at buffer off \<le> 2 ^ 53"
  shows "decodeString buffer (Num off) =
     Inr (VText (trimWith is_space (filter (\<lambda>c. c \<noteq> 0)
            (toString_utf8 (take (nat (word_at buffer off)) (drop (nat off + 32) buffer))))),
          Num (off + 32 + (word_at buffer off + 31) div 32 * 32))"
  using assms
  by (simp add: decodeString_def decodeBytes_def decodeBytesAt_value Let_def slice_from_drop
      Buffer_from_hex_toString_hex)

text \<open>At offset 32, a payload of four bytes: \<open>U+00E9\<close> in two bytes, a NUL and a line
  feed; the byte after them is not part of the payload.\<close>

theorem decodeString_value_example:
  "decodeString (word32 0 @ word32 4 @ [0xC3, 0xA9, 0x00, 0x0A, 0x7A]) (Num 32) = Inr (VText [233], Num 96)"
proof -
  let ?b = "word32 0 @ word32 4 @ [0xC3, 0xA9, 0x00, 0x0A, 0x7A]"
  have w: "word_at ?b 32 = 4"
    by code_simp
  have r: "trimWith is_space (filter (\<lambda>c. c \<noteq> 0)
            (toString_utf8 (take (nat 4) (drop (nat 32 + 32) ?b)))) = [233]"
    by code_simp
  have t: "decodeString ?b (Num 32) =
     Inr (VText (trimWith is_space (filter (\<lambda>c. c \<noteq> 0)
            (toString_utf8 (take (nat (word_at ?b 32)) (drop (nat 32 + 32) ?b))))),
          Num (32 + 32 + (word_at ?b 32 + 31) div 32 * 32))"
    by (rule decodeString_value) (simp_all add: w)
  show ?thesis
    unfolding t w r by simp
qed

subsection \<open>Event logs\<close>

lemma decodeLog_indexed_skip:
  "int (length topics) \<le> i + 1 \<Longrightarrow> decodeLog_indexed ps i topics args = Inr args"
  by (induction ps arbitrary: i args) (simp_all add: topic_at_def)

lemma decodeLog_indexed_append:
  "decodeLog_indexed (xs @ ys) i topics args =
     andThen (decodeLog_indexed xs i topics args)
       (\<lambda>a. decodeLog_indexed ys (i + int (length xs)) topics a)"
proof (induction xs arbitrary: i args)
  case Nil
  then show ?case by simp
next
  case (Cons p xs)
  have e: "i + 1 + int (length xs) = i + int (length (p # xs))"
    by simp
  show ?case
    by (simp add: Cons.IH e [symmetric] add.assoc andThen_def
        split: option.splits sum.splits prod.splits)
qed

text \<open>
  C7, as stated, fails: with the signature topic alone, the \<open>Transfer\<close> event of two
  indexed parameters decodes to a record that holds the non-indexed \<open>value\<close> only,
  with no error.
\<close>

theorem decodeLog_without_topics:
  "decodeLog \<lparr>ev_name = ''Transfer'',
             ev_inputs = [Param (Some ''from'') ''address'' True None,
                          Param (Some ''to'') ''address'' True None,
                          Param (Some ''value'') ''uint256'' False None]\<rparr>
     ''0x0000000000000000000000000000000000000000000000000000000000000005''
     [''0xddf252ad1be2c89b69c2b068fc378daa952ba7f163c4a11628f55a4df523b3ef'']
   = Inr \<lparr>log_name = ''Transfer'', log_args = [(''value'', VStr ''5'')]\<rparr>"
  by code_simp

text \<open>
  C7, amended.  When the topics list is too short, \<open>decodeLog\<close> raises no error: an
  indexed parameter whose topic is missing is skipped (\<open>if (!topic) continue\<close>), so
  the result is that of the event without those parameters.  Here \<open>pre\<close> are the inputs
  up to the last indexed parameter that has a topic, \<open>post\<close> the inputs after it.
\<close>

theorem decodeLog_skips_missing_topics:
  assumes "int (length topics) \<le> 1 + int (length (filter p_indexed pre))"
  shows "decodeLog \<lparr>ev_name = name, ev_inputs = pre @ post\<rparr> data topics
         = decodeLog \<lparr>ev_name = name, ev_inputs = pre @ filter (\<lambda>p. \<not> p_indexed p) post\<rparr> data topics"
proof -
  let ?ip = "filter p_indexed pre"
  have skip: "decodeLog_indexed (filter p_indexed post) (0 + int (length ?ip)) topics a = Inr a" for a
    using assms by (intro decodeLog_indexed_skip) simp
  have "decodeLog_indexed (filter p_indexed (pre @ post)) 0 topics []
        = decodeLog_indexed ?ip 0 topics []"
    by (cases "decodeLog_indexed ?ip 0 topics []")
      (simp_all add: decodeLog_indexed_append skip del: add_0)
  moreover have "filter p_indexed (pre @ filter (\<lambda>p. \<not> p_indexed p) post) = ?ip"
    by simp
  moreover have "filter (\<lambda>p. \<not> p_indexed p) (pre @ filter (\<lambda>p. \<not> p_indexed p) post)
                 = filter (\<lambda>p. \<not> p_indexed p) (pre @ post)"
    by simp
  ultimately show ?thesis
    by (simp add: decodeLog_def Let_def del: filter_append)
qed

text \<open>\<open>Transfer\<close> with the signature topic and the topic of \<open>from\<close>: the parameter \<open>to\<close>
  is absent from the result.\<close>

theorem decodeLog_skips_missing_topics_example:
  "decodeLog \<lparr>ev_name = ''Transfer'',
             ev_inputs = [Param (Some ''from'') ''address'' True None]
               @ [Param (Some ''to'') ''address'' True None,
                  Param (Some ''value'') ''uint256'' False None]\<rparr>
     ''0x0000000000000000000000000000000000000000000000000000000000000005''
     [''0xddf252ad1be2c89b69c2b068fc378daa952ba7f163c4a11628f55a4df523b3ef'',
      ''0x000000000000000000000000742d35cc6634c0532925a3b8d8e9eed89b7a6de6'']
   = Inr \<lparr>log_name = ''Transfer'',
          log_args = [(''from'', VStr ''0x742d35cc6634c0532925a3b8d8e9eed89b7a6de6''),
                      (''value'', VStr ''5'')]\<rparr>"
proof -
  let ?topics = "[''0xddf252ad1be2c89b69c2b068fc378daa952ba7f163c4a11628f55a4df523b3ef'',
      ''0x000000000000000000000000742d35cc6634c0532925a3b8d8e9eed89b7a6de6'']"
  let ?pre = "[Param (Some ''from'') ''address'' True None]"
  have h: "int (length ?topics) \<le> 1 + int (length (filter p_indexed ?pre))"
    by simp
  have r: "decodeLog \<lparr>ev_name = ''Transfer'',
             ev_inputs = ?pre @ filter (\<lambda>p. \<not> p_indexed p)
               [Param (Some ''to'') ''address'' True None,
                Param (Some ''value'') ''uint256'' False None]\<rparr>
     ''0x0000000000000000000000000000000000000000000000000000000000000005'' ?topics
   = Inr \<lparr>log_name = ''Transfer'',
          log_args = [(''from'', VStr ''0x742d35cc6634c0532925a3b8d8e9eed89b7a6de6''),
                      (''value'', VStr ''5'')]\<rparr>"
    by code_simp
  show ?thesis
    by (rule trans [OF decodeLog_skips_missing_topics [OF h] r])
qed

subsection \<open>Canonical type strings\<close>

text \<open>The canonical form as the specification words it: a tuple is its components'
  canonical forms between parentheses, joined by commas, followed by the array suffix;
  bare \<open>uint\<close> and \<open>int\<close> get their width.\<close>

fun canonical_spec :: "abi_param \<Rightarrow> string" where
  "canonical_spec (Param name type indexed components) =
     (let base = takeWhile (\<lambda>c. c \<noteq> CHR ''['') type;
          suffix = dropWhile (\<lambda>c. c \<noteq> CHR ''['') type
      in (if base = ''tuple''
          then ''('' @ join_comma (map canonical_spec (case components of Some cs \<Rightarrow> cs | None \<Rightarrow> []))
               @ '')''
          else if base = ''uint'' then ''uint256''
          else if base = ''int'' then ''int256''
          else base) @ suffix)"

text \<open>
  C8, as stated, fails: for a tuple of a \<open>uint256\<close> and a \<open>bool\<close> the code's canonical
  type is the token \<open>tuple\<close>, where the specification's is \<open>(uint256,bool)\<close>, and the
  function signature embeds the token.
\<close>

theorem getCanonicalType_tuple_counterexample:
  "getCanonicalType (Param (Some ''p'') ''tuple'' False
      (Some [Param (Some ''a'') ''uint256'' False None, Param (Some ''b'') ''bool'' False None]))
     = ''tuple''
   \<and> canonical_spec (Param (Some ''p'') ''tuple'' False
      (Some [Param (Some ''a'') ''uint256'' False None, Param (Some ''b'') ''bool'' False None]))
     = ''(uint256,bool)''
   \<and> getFunctionSignature \<lparr>fn_name = ''f'', fn_inputs = [Param (Some ''p'') ''tuple'' False
      (Some [Param (Some ''a'') ''uint256'' False None, Param (Some ''b'') ''bool'' False None])]\<rparr>
     = ''f(tuple)''"
  by code_simp

text \<open>
  C8, amended.  For every tuple-typed parameter the canonical type string is the literal
  token \<open>tuple\<close>, followed by the array suffix when the parameter is an array of tuples;
  the components are not expanded, and function and event signatures embed that token.
\<close>

theorem getCanonicalType_tuple:
  assumes "p_type p = ''tuple'' @ suffix" and "suffix = [] \<or> hd suffix = CHR ''[''"
  shows "getCanonicalType p = ''tuple'' @ suffix
         \<and> getFunctionSignature \<lparr>fn_name = name, fn_inputs = [p]\<rparr> = name @ ''(tuple'' @ suffix @ '')''
         \<and> getEventSignature \<lparr>ev_name = name, ev_inputs = [p]\<rparr> = name @ ''(tuple'' @ suffix @ '')''"
proof -
  have c: "getCanonicalType p = ''tuple'' @ suffix"
  proof (cases suffix)
    case Nil
    then show ?thesis
      using assms by (simp add: getCanonicalType_def getBaseCanonicalType_def startsWith_def)
  next
    case (Cons c cs)
    then have s: "suffix = CHR ''['' # cs"
      using assms(2) by simp
    have i: "includes_str (''tuple'' @ CHR ''['' # cs) ''[''"
      by (simp add: startsWith_def)
    show ?thesis
      using assms(1) s i by (simp add: getCanonicalType_def getBaseCanonicalType_def Let_def)
  qed
  then show ?thesis
    by (simp add: getFunctionSignature_def getEventSignature_def)
qed

theorem getCanonicalType_tuple_example:
  "getCanonicalType (Param (Some ''orders'') ''tuple[]'' False
      (Some [Param (Some ''id'') ''uint256'' False None])) = ''tuple[]''
   \<and> getFunctionSignature \<lparr>fn_name = ''fill'', fn_inputs = [Param (Some ''orders'') ''tuple[]'' False
      (Some [Param (Some ''id'') ''uint256'' False None])]\<rparr> = ''fill(tuple[])''
   \<and> getEventSignature \<lparr>ev_name = ''fill'', ev_inputs = [Param (Some ''orders'') ''tuple[]'' False
      (Some [Param (Some ''id'') ''uint256'' False None])]\<rparr> = ''fill(tuple[])''"
  using getCanonicalType_tuple [of "Param (Some ''orders'') ''tuple[]'' False
      (Some [Param (Some ''id'') ''uint256'' False None])" "''[]''" "''fill''"]
  by simp

subsection \<open>Arrays of dynamic elements\<close>




subsection \<open>Decoded integers\<close>

text \<open>The integer that an unsigned type reads at byte \<open>off\<close>: the value of the low 8
  bytes of the word for a width of at most 64 bits, of the whole word otherwise.\<close>

definition uint_value :: "buffer \<Rightarrow> int \<Rightarrow> int \<Rightarrow> int" where
  "uint_value buffer off bits =
     (if bits \<le> 64 then be_value (js_slice buffer (Num (off + 24)) (Num (off + 32)))
      else word_at buffer off)"

text \<open>The integer that a signed type of \<open>bits\<close> bits reads: the value of the word, less
  \<open>2^bits\<close> when it is \<open>2^(bits-1)\<close> or more.\<close>

definition int_value :: "buffer \<Rightarrow> int \<Rightarrow> int \<Rightarrow> int" where
  "int_value buffer off bits =
     (let raw = word_at buffer off
      in if 2 ^ nat (bits - 1) \<le> raw then raw - 2 ^ nat bits else raw)"


definition integer_value :: "string \<Rightarrow> buffer \<Rightarrow> int \<Rightarrow> int" where
  "integer_value t buffer off =
     (if startsWith t ''uint'' then uint_value buffer off (or256 (parseInt (slice_from t 4)))
      else int_value buffer off (or256 (parseInt (slice_from t 3))))"

text \<open>The decimal texts of consecutive words, one for each type of a list.\<close>

fun integer_words :: "string list \<Rightarrow> buffer \<Rightarrow> int \<Rightarrow> jsval list" where
  "integer_words [] buffer off = []"
| "integer_words (t # ts) buffer off =
     VStr (BigInt_toString (integer_value t buffer off)) # integer_words ts buffer (off + 32)"



























lemma length_integer_words [simp]: "length (integer_words ts buffer off) = length ts"
  by (induction ts arbitrary: off) simp_all












end
